theory Spec2Isabelle
  imports Main "HOL-Library.Multiset"
begin

section \<open>Data model (package models)\<close>

text \<open>
  The structs of \<^verbatim>\<open>internal/models\<close> as records, \<^verbatim>\<open>RepositoryStatus\<close> as a datatype.
  Go's \<^verbatim>\<open>int\<close> identifiers and counters are modelled as \<open>int\<close>: the counters of a
  report count entries of slices held in memory. \<^verbatim>\<open>time.Time\<close> is modelled as the
  instant it denotes (an \<open>int\<close>), so that \<^verbatim>\<open>t.After(u)\<close> is \<open>u < t\<close>.
\<close>

datatype RepositoryStatus = StatusAccessible | StatusError | StatusNoMRs | StatusConflicts

text \<open>
  A Go \<^verbatim>\<open>error\<close> value. \<open>Errorf fmt args cause\<close> is \<^verbatim>\<open>fmt.Errorf(fmt, args...)\<close> with the
  error wrapped by \<^verbatim>\<open>%w\<close> (if any) kept apart; \<open>Failure msg\<close> is any other error, such as
  the ones the HTTP transport produces. A \<^verbatim>\<open>nil\<close> error is \<open>None\<close> of \<open>error option\<close>.
\<close>

datatype fmt_arg = S string | D int

datatype error = Failure string | Errorf string "fmt_arg list" "error option"

record Namespace =
  ID :: int
  Name :: string
  Path :: string

record Repository =
  ID :: int
  Name :: string
  WebURL :: string
  Namespace :: Namespace
  Status :: RepositoryStatus
  Error :: "error option"

record Author =
  Name :: string
  Username :: string
  Email :: string

record MergeRequest =
  ID :: int
  Title :: string
  Author :: Author
  WebURL :: string
  SourceBranch :: string
  TargetBranch :: string
  HasConflicts :: bool
  CreatedAt :: int
  MergeStatus :: string
  ChangesCount :: string

record RepositoryReport =
  Repository :: Repository
  ConflictingMRs :: "MergeRequest list"
  Status :: RepositoryStatus
  ErrorMessage :: string

record Report =
  Timestamp :: string
  TotalRepositories :: int
  RepositoriesWithConflicts :: int
  TotalConflictingMRs :: int
  Repositories :: "RepositoryReport list"

section \<open>Report builder\<close>

text \<open>
  \<^verbatim>\<open>func (r *Report) AddRepository(repo, conflictingMRs, status, errorMsg)\<close>: the receiver is
  mutated in place; the model returns the updated report.
\<close>

definition AddRepository ::
  "Report \<Rightarrow> Repository \<Rightarrow> MergeRequest list \<Rightarrow> RepositoryStatus \<Rightarrow> string \<Rightarrow> Report" where
  "AddRepository r repo conflictingMRs status errorMsg =
     (let repoReport = \<lparr>Repository = repo, ConflictingMRs = conflictingMRs,
                         Status = status, ErrorMessage = errorMsg\<rparr>;
          r1 = r\<lparr>Repositories := Repositories r @ [repoReport]\<rparr>;
          r2 = r1\<lparr>TotalRepositories := TotalRepositories r1 + 1\<rparr>
      in if status = StatusConflicts
         then r2\<lparr>RepositoriesWithConflicts := RepositoriesWithConflicts r2 + 1,
                 TotalConflictingMRs := TotalConflictingMRs r2 + int (length conflictingMRs)\<rparr>
         else r2)"

definition GetSummaryStats :: "Report \<Rightarrow> int \<times> int \<times> int" where
  "GetSummaryStats r = (TotalRepositories r, RepositoriesWithConflicts r, TotalConflictingMRs r)"

text \<open>
  A report before any call: \<^verbatim>\<open>&Report{}\<close> in the tests, and in \<^verbatim>\<open>buildReport\<close> a report
  with only the timestamp set and an empty slice of entries.
\<close>

definition empty_Report :: "string \<Rightarrow> Report" where
  "empty_Report ts = \<lparr>Timestamp = ts, TotalRepositories = 0, RepositoriesWithConflicts = 0,
                      TotalConflictingMRs = 0, Repositories = []\<rparr>"

text \<open>One call of \<^verbatim>\<open>AddRepository\<close> is given by its four arguments; a sequence of calls
  is run from left to right.\<close>

type_synonym add_call = "Repository \<times> MergeRequest list \<times> RepositoryStatus \<times> string"

fun AddRepository_call :: "Report \<Rightarrow> add_call \<Rightarrow> Report" where
  "AddRepository_call r (repo, conflictingMRs, status, errorMsg) =
     AddRepository r repo conflictingMRs status errorMsg"

definition AddRepository_calls :: "Report \<Rightarrow> add_call list \<Rightarrow> Report" where
  "AddRepository_calls r calls = foldl AddRepository_call r calls"

text \<open>The entries of a report whose status is \<^verbatim>\<open>StatusConflicts\<close>.\<close>

definition conflict_entries :: "Report \<Rightarrow> RepositoryReport list" where
  "conflict_entries r =
     filter (\<lambda>e. RepositoryReport.Status e = StatusConflicts) (Repositories r)"

definition summary_consistent :: "Report \<Rightarrow> bool" where
  "summary_consistent r \<longleftrightarrow>
     TotalRepositories r = int (length (Repositories r)) \<and>
     RepositoriesWithConflicts r = int (length (conflict_entries r)) \<and>
     TotalConflictingMRs r = (\<Sum>e\<leftarrow>conflict_entries r. int (length (ConflictingMRs e)))"

section \<open>The API client, as the scanner and the analyzer use it\<close>

text \<open>
  The remote side is fixed during a run: a request has one answer, and the functions
  below ask once for each repository and once for each merge request of it.
  \<open>projects_page c n\<close> is what \<^verbatim>\<open>makeRequest\<close> and the
  JSON decoder give for page \<open>n\<close> of \<^verbatim>\<open>/api/v4/projects\<close> with \<^verbatim>\<open>per_page=100\<close>: the request
  fails, the body does not decode, or a slice of repositories is decoded.
  \<^verbatim>\<open>ListMergeRequests\<close> and \<^verbatim>\<open>GetMergeRequestChanges\<close> are taken by what they return to their
  caller, an error or a value. Every call of a client method is recorded in a trace, in
  the order the calls are made.
\<close>

datatype 'a response = RequestFailed error | DecodeFailed error | Decoded 'a

record Client =
  projects_page :: "int \<Rightarrow> Repository list response"
  ListMergeRequests :: "int \<Rightarrow> string \<Rightarrow> string \<Rightarrow> error + MergeRequest list"
  GetMergeRequestChanges :: "int \<Rightarrow> int \<Rightarrow> error + int"

datatype call =
    Call_projects_page int
  | Call_ListMergeRequests int string string
  | Call_GetMergeRequestChanges int int

type_synonym trace = "call list"

definition call_ListMergeRequests ::
  "Client \<Rightarrow> int \<Rightarrow> string \<Rightarrow> string \<Rightarrow> trace \<Rightarrow> (error + MergeRequest list) \<times> trace" where
  "call_ListMergeRequests c projectID sourceBranch targetBranch tr =
     (ListMergeRequests c projectID sourceBranch targetBranch,
      tr @ [Call_ListMergeRequests projectID sourceBranch targetBranch])"

definition call_GetMergeRequestChanges ::
  "Client \<Rightarrow> int \<Rightarrow> int \<Rightarrow> trace \<Rightarrow> (error + int) \<times> trace" where
  "call_GetMergeRequestChanges c projectID mrID tr =
     (GetMergeRequestChanges c projectID mrID, tr @ [Call_GetMergeRequestChanges projectID mrID])"

subsection \<open>\<^verbatim>\<open>ListRepositories\<close>: the pagination loop\<close>

text \<open>
  \<^verbatim>\<open>for { ... if len(repos) < perPage { break }; page++ }\<close> with \<^verbatim>\<open>perPage := 100\<close>. The loop
  has no bound of its own: against a remote side that keeps sending full pages it never
  returns, which is the value \<open>None\<close>.
\<close>

definition perPage :: int where
  "perPage = 100"

partial_function (option) ListRepositories_loop ::
  "Client \<Rightarrow> int \<Rightarrow> Repository list \<Rightarrow> trace \<Rightarrow> ((error + Repository list) \<times> trace) option" where
  "ListRepositories_loop c page allRepos tr =
     (case projects_page c page of
        RequestFailed err \<Rightarrow>
          Some (Inl (Errorf ''failed to list repositories (page %d): %w'' [D page] (Some err)),
                tr @ [Call_projects_page page])
      | DecodeFailed err \<Rightarrow>
          Some (Inl (Errorf ''failed to decode repositories response: %w'' [] (Some err)),
                tr @ [Call_projects_page page])
      | Decoded repos \<Rightarrow>
          if int (length repos) < perPage
          then Some (Inr (allRepos @ repos), tr @ [Call_projects_page page])
          else ListRepositories_loop c (page + 1) (allRepos @ repos) (tr @ [Call_projects_page page]))"

declare ListRepositories_loop.simps [code]

definition ListRepositories ::
  "Client \<Rightarrow> trace \<Rightarrow> ((error + Repository list) \<times> trace) option" where
  "ListRepositories c tr = ListRepositories_loop c 1 [] tr"

section \<open>\<^verbatim>\<open>sort.Slice\<close>\<close>

text \<open>
  The analyzer sorts with \<^verbatim>\<open>sort.Slice\<close> of Go's standard library. The functions of the
  analyzer take the sort as a parameter \<open>sort_Slice\<close>, applied to the \<^verbatim>\<open>less\<close> function and
  the slice. Its documented contract: the result is the slice rearranged (it only swaps
  elements) and in the order of \<^verbatim>\<open>less\<close>, when \<^verbatim>\<open>less\<close> is a transitive ordering; the sort
  is not guaranteed to be stable.
\<close>

type_synonym 'a slice_sort = "('a \<Rightarrow> 'a \<Rightarrow> bool) \<Rightarrow> 'a list \<Rightarrow> 'a list"

definition strict_weak_order :: "('a \<Rightarrow> 'a \<Rightarrow> bool) \<Rightarrow> bool" where
  "strict_weak_order lessf \<longleftrightarrow>
     (\<forall>a. \<not> lessf a a) \<and>
     (\<forall>a b c. lessf a b \<and> lessf b c \<longrightarrow> lessf a c) \<and>
     (\<forall>a b c. \<not> lessf a b \<and> \<not> lessf b c \<longrightarrow> \<not> lessf a c)"

definition sort_permutes :: "'a slice_sort \<Rightarrow> bool" where
  "sort_permutes sort_Slice \<longleftrightarrow> (\<forall>lessf xs. mset (sort_Slice lessf xs) = mset xs)"

definition sort_orders :: "'a slice_sort \<Rightarrow> bool" where
  "sort_orders sort_Slice \<longleftrightarrow>
     (\<forall>lessf xs. strict_weak_order lessf \<longrightarrow>
        sorted_wrt (\<lambda>a b. \<not> lessf b a) (sort_Slice lessf xs))"

definition sort_Slice_contract :: "'a slice_sort \<Rightarrow> bool" where
  "sort_Slice_contract sort_Slice \<longleftrightarrow> sort_permutes sort_Slice \<and> sort_orders sort_Slice"

section \<open>Merge-request analyzer\<close>

text \<open>The \<^verbatim>\<open>less\<close> closure of both sorts:
  \<^verbatim>\<open>conflictingMRs[i].CreatedAt.After(conflictingMRs[j].CreatedAt)\<close>.\<close>

definition created_after :: "MergeRequest \<Rightarrow> MergeRequest \<Rightarrow> bool" where
  "created_after a b \<longleftrightarrow> CreatedAt b < CreatedAt a"

text \<open>The condition of the filter loops:
  \<^verbatim>\<open>mr.SourceBranch == "release" && mr.TargetBranch == "master" && mr.HasConflicts\<close>.\<close>

definition release_master_conflict :: "MergeRequest \<Rightarrow> bool" where
  "release_master_conflict mr \<longleftrightarrow>
     SourceBranch mr = ''release'' \<and> TargetBranch mr = ''master'' \<and> HasConflicts mr"

fun filterConflictingMRs_loop :: "MergeRequest list \<Rightarrow> MergeRequest list \<Rightarrow> MergeRequest list" where
  "filterConflictingMRs_loop [] conflictingMRs = conflictingMRs"
| "filterConflictingMRs_loop (mr # mrs) conflictingMRs =
     (if SourceBranch mr = ''release'' \<and> TargetBranch mr = ''master'' \<and> HasConflicts mr
      then filterConflictingMRs_loop mrs (conflictingMRs @ [mr])
      else filterConflictingMRs_loop mrs conflictingMRs)"

definition filterAndSortConflictingMRs ::
  "MergeRequest slice_sort \<Rightarrow> MergeRequest list \<Rightarrow> MergeRequest list" where
  "filterAndSortConflictingMRs sort_Slice mrs =
     (let conflictingMRs = filterConflictingMRs_loop mrs []
      in sort_Slice created_after conflictingMRs)"

definition hasActualChanges :: "Client \<Rightarrow> int \<Rightarrow> int \<Rightarrow> trace \<Rightarrow> bool \<times> trace" where
  "hasActualChanges client projectID mrID tr =
     (case call_GetMergeRequestChanges client projectID mrID tr of
        (Inl err, tr') \<Rightarrow> (True, tr')
      | (Inr changesCount, tr') \<Rightarrow> (changesCount > 0, tr'))"

fun filterRealConflictingMRs_loop ::
  "Client \<Rightarrow> int \<Rightarrow> MergeRequest list \<Rightarrow> MergeRequest list \<Rightarrow> trace \<Rightarrow> MergeRequest list \<times> trace" where
  "filterRealConflictingMRs_loop client projectID [] conflictingMRs tr = (conflictingMRs, tr)"
| "filterRealConflictingMRs_loop client projectID (mr # mrs) conflictingMRs tr =
     (if SourceBranch mr = ''release'' \<and> TargetBranch mr = ''master'' \<and> HasConflicts mr
      then (case hasActualChanges client projectID (MergeRequest.ID mr) tr of
              (True, tr') \<Rightarrow>
                filterRealConflictingMRs_loop client projectID mrs (conflictingMRs @ [mr]) tr'
            | (False, tr') \<Rightarrow>
                filterRealConflictingMRs_loop client projectID mrs conflictingMRs tr')
      else filterRealConflictingMRs_loop client projectID mrs conflictingMRs tr)"

definition filterAndSortRealConflictingMRs ::
  "MergeRequest slice_sort \<Rightarrow> Client \<Rightarrow> int \<Rightarrow> MergeRequest list \<Rightarrow> trace \<Rightarrow>
     MergeRequest list \<times> trace" where
  "filterAndSortRealConflictingMRs sort_Slice client projectID mrs tr =
     (case filterRealConflictingMRs_loop client projectID mrs [] tr of
        (conflictingMRs, tr') \<Rightarrow> (sort_Slice created_after conflictingMRs, tr'))"

text \<open>\<^verbatim>\<open>analyzeRepository\<close> returns a repository and an error (\<^verbatim>\<open>nil\<close> on success).\<close>

definition analyzeRepository ::
  "MergeRequest slice_sort \<Rightarrow> Client \<Rightarrow> Repository \<Rightarrow> trace \<Rightarrow>
     (Repository \<times> error option) \<times> trace" where
  "analyzeRepository sort_Slice client repo tr =
     (case call_ListMergeRequests client (Repository.ID repo) ''release'' ''master'' tr of
        (Inl err, tr1) \<Rightarrow>
          ((repo, Some (Errorf ''failed to fetch merge requests for repository %s: %w''
                          [S (Repository.Name repo)] (Some err))), tr1)
      | (Inr mrs, tr1) \<Rightarrow>
          (case filterAndSortRealConflictingMRs sort_Slice client (Repository.ID repo) mrs tr1 of
             (conflictingMRs, tr2) \<Rightarrow>
               ((if length conflictingMRs > 0 then repo\<lparr>Repository.Status := StatusConflicts\<rparr>
                 else if length mrs > 0 then repo\<lparr>Repository.Status := StatusAccessible\<rparr>
                 else repo\<lparr>Repository.Status := StatusNoMRs\<rparr>, None), tr2)))"

fun AnalyzeMRs_loop ::
  "MergeRequest slice_sort \<Rightarrow> Client \<Rightarrow> Repository list \<Rightarrow> Repository list \<Rightarrow> trace \<Rightarrow>
     Repository list \<times> trace" where
  "AnalyzeMRs_loop sort_Slice client [] analyzedRepos tr = (analyzedRepos, tr)"
| "AnalyzeMRs_loop sort_Slice client (repo # repositories) analyzedRepos tr =
     (if Repository.Status repo = StatusError
      then AnalyzeMRs_loop sort_Slice client repositories (analyzedRepos @ [repo]) tr
      else (case analyzeRepository sort_Slice client repo tr of
              ((analyzedRepo, Some err), tr') \<Rightarrow>
                AnalyzeMRs_loop sort_Slice client repositories
                  (analyzedRepos @ [repo\<lparr>Repository.Status := StatusError, Error := Some err\<rparr>]) tr'
            | ((analyzedRepo, None), tr') \<Rightarrow>
                AnalyzeMRs_loop sort_Slice client repositories (analyzedRepos @ [analyzedRepo]) tr'))"

text \<open>The client is a pointer: \<open>None\<close> is \<^verbatim>\<open>nil\<close>. The result is Go's pair of a slice and an
  error, of which exactly one is set.\<close>

definition AnalyzeMRs ::
  "MergeRequest slice_sort \<Rightarrow> Client option \<Rightarrow> Repository list \<Rightarrow> trace \<Rightarrow>
     (error + Repository list) \<times> trace" where
  "AnalyzeMRs sort_Slice client repositories tr =
     (case client of
        None \<Rightarrow> (Inl (Errorf ''gitlab client cannot be nil'' [] None), tr)
      | Some c \<Rightarrow>
          (case AnalyzeMRs_loop sort_Slice c repositories [] tr of
             (analyzedRepos, tr') \<Rightarrow> (Inr analyzedRepos, tr')))"

text \<open>
  \<^verbatim>\<open>GetConflictingMRs\<close> does not test the client: with a \<^verbatim>\<open>nil\<close> client the first call of
  \<^verbatim>\<open>client.ListMergeRequests\<close> dereferences it and panics.
\<close>

datatype 'a outcome = Panic | Returned 'a

fun GetConflictingMRs_loop ::
  "MergeRequest slice_sort \<Rightarrow> Client option \<Rightarrow> Repository list \<Rightarrow>
     (int \<rightharpoonup> MergeRequest list) \<Rightarrow> trace \<Rightarrow> ((int \<rightharpoonup> MergeRequest list) \<times> trace) outcome" where
  "GetConflictingMRs_loop sort_Slice client [] conflictingMRs tr = Returned (conflictingMRs, tr)"
| "GetConflictingMRs_loop sort_Slice client (repo # repositories) conflictingMRs tr =
     (if Repository.Status repo = StatusConflicts
      then (case client of
              None \<Rightarrow> Panic
            | Some c \<Rightarrow>
                (case call_ListMergeRequests c (Repository.ID repo) ''release'' ''master'' tr of
                   (Inl err, tr1) \<Rightarrow>
                     GetConflictingMRs_loop sort_Slice client repositories conflictingMRs tr1
                 | (Inr mrs, tr1) \<Rightarrow>
                     (case filterAndSortRealConflictingMRs sort_Slice c (Repository.ID repo) mrs tr1 of
                        (conflicts, tr2) \<Rightarrow>
                          if length conflicts > 0
                          then GetConflictingMRs_loop sort_Slice client repositories
                                 (conflictingMRs(Repository.ID repo \<mapsto> conflicts)) tr2
                          else GetConflictingMRs_loop sort_Slice client repositories
                                 conflictingMRs tr2)))
      else GetConflictingMRs_loop sort_Slice client repositories conflictingMRs tr)"

definition GetConflictingMRs ::
  "MergeRequest slice_sort \<Rightarrow> Client option \<Rightarrow> Repository list \<Rightarrow> trace \<Rightarrow>
     (((int \<rightharpoonup> MergeRequest list) \<times> error option) \<times> trace) outcome" where
  "GetConflictingMRs sort_Slice client repositories tr =
     (case GetConflictingMRs_loop sort_Slice client repositories Map.empty tr of
        Panic \<Rightarrow> Panic
      | Returned (conflictingMRs, tr') \<Rightarrow> Returned ((conflictingMRs, None), tr'))"

section \<open>Repository scanner\<close>

record RepositoryScanner =
  client :: Client
  includeGroups :: "int list"

fun hasConflicts_loop :: "MergeRequest list \<Rightarrow> bool \<Rightarrow> bool" where
  "hasConflicts_loop [] hasConflicts = hasConflicts"
| "hasConflicts_loop (mr # mrs) hasConflicts =
     (if HasConflicts mr then True else hasConflicts_loop mrs hasConflicts)"

definition processRepository ::
  "RepositoryScanner \<Rightarrow> Repository \<Rightarrow> trace \<Rightarrow> Repository \<times> trace" where
  "processRepository rs repo0 tr =
     (let repo = repo0\<lparr>Repository.Status := StatusAccessible, Error := None\<rparr>
      in case call_ListMergeRequests (client rs) (Repository.ID repo) ''release'' ''master'' tr of
           (Inl err, tr') \<Rightarrow> (repo\<lparr>Repository.Status := StatusError, Error := Some err\<rparr>, tr')
         | (Inr mrs, tr') \<Rightarrow>
             if length mrs = 0 then (repo\<lparr>Repository.Status := StatusNoMRs\<rparr>, tr')
             else let hasConflicts = hasConflicts_loop mrs False
                  in if hasConflicts then (repo\<lparr>Repository.Status := StatusConflicts\<rparr>, tr')
                     else (repo\<lparr>Repository.Status := StatusNoMRs\<rparr>, tr'))"

text \<open>\<^verbatim>\<open>includeMap[repo.Namespace.ID]\<close> is true exactly for the identifiers put into the map,
  those of \<^verbatim>\<open>includeGroups\<close>.\<close>

definition filterRepositories :: "RepositoryScanner \<Rightarrow> Repository list \<Rightarrow> Repository list" where
  "filterRepositories rs repos =
     (if length (includeGroups rs) = 0 then repos
      else filter (\<lambda>repo. Namespace.ID (Namespace repo) \<in> set (includeGroups rs)) repos)"

fun processRepositories ::
  "RepositoryScanner \<Rightarrow> Repository list \<Rightarrow> trace \<Rightarrow> Repository list \<times> trace" where
  "processRepositories rs [] tr = ([], tr)"
| "processRepositories rs (repo # filteredRepos) tr =
     (case processRepository rs repo tr of
        (processed, tr1) \<Rightarrow>
          (case processRepositories rs filteredRepos tr1 of
             (processedRepos, tr2) \<Rightarrow> (processed # processedRepos, tr2)))"

definition ScanRepositories ::
  "RepositoryScanner \<Rightarrow> trace \<Rightarrow> ((error + Repository list) \<times> trace) option" where
  "ScanRepositories rs tr =
     (case ListRepositories (client rs) tr of
        None \<Rightarrow> None
      | Some (Inl err, tr1) \<Rightarrow>
          Some (Inl (Errorf ''failed to retrieve repositories: %w'' [] (Some err)), tr1)
      | Some (Inr repos, tr1) \<Rightarrow>
          (case processRepositories rs (filterRepositories rs repos) tr1 of
             (processedRepos, tr2) \<Rightarrow> Some (Inr processedRepos, tr2)))"

section \<open>The run of \<^verbatim>\<open>sort.Slice\<close> in Go's standard library\<close>

text \<open>
  The README asks for Go 1.23.1 or later, where \<^verbatim>\<open>sort.Slice(x, less)\<close> is
  \<^verbatim>\<open>pdqsort_func(lessSwap{less, swap}, 0, length, bits.Len(uint(length)))\<close> (package \<^verbatim>\<open>sort\<close>,
  pattern-defeating quicksort, since Go 1.19). The functions below follow that code on a
  list for the slice, with Go's \<^verbatim>\<open>int\<close> indices as \<open>int\<close>: \<^verbatim>\<open>data.Less(i, j)\<close> applies the
  \<^verbatim>\<open>less\<close> closure to the elements at \<open>i\<close> and \<open>j\<close>, \<^verbatim>\<open>data.Swap(i, j)\<close> exchanges them.
  The recursion of \<^verbatim>\<open>pdqsort_func\<close> and its loop are bounded by fuel. Two branches are
  left out, and a run that reaches one of them has the value \<open>None\<close> like a run out of
  fuel: the fallback to \<^verbatim>\<open>heapSort_func\<close> (\<^verbatim>\<open>limit == 0\<close>) and the scattering of
  \<^verbatim>\<open>breakPatterns_func\<close> after an unbalanced partition. A slice of at most 12 elements
  is sorted by insertion sort alone.
\<close>

definition Swap :: "'a list \<Rightarrow> int \<Rightarrow> int \<Rightarrow> 'a list" where
  "Swap data i j = data[nat i := data ! nat j, nat j := data ! nat i]"

definition Less :: "('a \<Rightarrow> 'a \<Rightarrow> bool) \<Rightarrow> 'a list \<Rightarrow> int \<Rightarrow> int \<Rightarrow> bool" where
  "Less lessf data i j = lessf (data ! nat i) (data ! nat j)"

text \<open>\<^verbatim>\<open>insertionSort_func\<close>:
  \<^verbatim>\<open>for i := a + 1; i < b; i++ { for j := i; j > a && data.Less(j, j-1); j-- { data.Swap(j, j-1) } }\<close>.\<close>

function insertionSort_inner :: "('a \<Rightarrow> 'a \<Rightarrow> bool) \<Rightarrow> 'a list \<Rightarrow> int \<Rightarrow> int \<Rightarrow> 'a list" where
  "insertionSort_inner lessf data a j =
     (if j > a \<and> Less lessf data j (j - 1)
      then insertionSort_inner lessf (Swap data j (j - 1)) a (j - 1)
      else data)"
  by pat_completeness auto
termination
  by (relation "measure (\<lambda>(lessf, data, a, j). nat (j - a))") auto

declare insertionSort_inner.simps [simp del]

function insertionSort_outer :: "('a \<Rightarrow> 'a \<Rightarrow> bool) \<Rightarrow> 'a list \<Rightarrow> int \<Rightarrow> int \<Rightarrow> int \<Rightarrow> 'a list" where
  "insertionSort_outer lessf data a b i =
     (if i < b then insertionSort_outer lessf (insertionSort_inner lessf data a i) a b (i + 1)
      else data)"
  by pat_completeness auto
termination
  by (relation "measure (\<lambda>(lessf, data, a, b, i). nat (b - i))") auto

declare insertionSort_outer.simps [simp del]

definition insertionSort_func :: "('a \<Rightarrow> 'a \<Rightarrow> bool) \<Rightarrow> 'a list \<Rightarrow> int \<Rightarrow> int \<Rightarrow> 'a list" where
  "insertionSort_func lessf data a b = insertionSort_outer lessf data a b (a + 1)"

text \<open>\<^verbatim>\<open>choosePivot_func\<close> with \<^verbatim>\<open>order2_func\<close>, \<^verbatim>\<open>median_func\<close> and \<^verbatim>\<open>medianAdjacent_func\<close>; the
  counter \<^verbatim>\<open>swaps\<close>, passed by pointer in Go, is passed and returned.\<close>

datatype sortedHint = unknownHint | increasingHint | decreasingHint

definition order2_func ::
  "('a \<Rightarrow> 'a \<Rightarrow> bool) \<Rightarrow> 'a list \<Rightarrow> int \<Rightarrow> int \<Rightarrow> int \<Rightarrow> int \<times> int \<times> int" where
  "order2_func lessf data a b swaps =
     (if Less lessf data b a then (b, a, swaps + 1) else (a, b, swaps))"

definition median_func ::
  "('a \<Rightarrow> 'a \<Rightarrow> bool) \<Rightarrow> 'a list \<Rightarrow> int \<Rightarrow> int \<Rightarrow> int \<Rightarrow> int \<Rightarrow> int \<times> int" where
  "median_func lessf data a b c swaps =
     (case order2_func lessf data a b swaps of (a1, b1, swaps1) \<Rightarrow>
      case order2_func lessf data b1 c swaps1 of (b2, c2, swaps2) \<Rightarrow>
      case order2_func lessf data a1 b2 swaps2 of (a3, b3, swaps3) \<Rightarrow> (b3, swaps3))"

definition medianAdjacent_func ::
  "('a \<Rightarrow> 'a \<Rightarrow> bool) \<Rightarrow> 'a list \<Rightarrow> int \<Rightarrow> int \<Rightarrow> int \<times> int" where
  "medianAdjacent_func lessf data a swaps = median_func lessf data (a - 1) a (a + 1) swaps"

definition choosePivot_func ::
  "('a \<Rightarrow> 'a \<Rightarrow> bool) \<Rightarrow> 'a list \<Rightarrow> int \<Rightarrow> int \<Rightarrow> int \<times> sortedHint" where
  "choosePivot_func lessf data a b =
     (let l = b - a;
          i = a + l div 4 * 1;
          j = a + l div 4 * 2;
          k = a + l div 4 * 3;
          (j, swaps) =
            (if l \<ge> 8
             then (case (if l \<ge> 50
                         then (case medianAdjacent_func lessf data i 0 of (i1, s1) \<Rightarrow>
                               case medianAdjacent_func lessf data j s1 of (j1, s2) \<Rightarrow>
                               case medianAdjacent_func lessf data k s2 of (k1, s3) \<Rightarrow>
                                 (i1, j1, k1, s3))
                         else (i, j, k, 0)) of
                     (i, j, k, swaps) \<Rightarrow> median_func lessf data i j k swaps)
             else (j, 0))
      in if swaps = 0 then (j, increasingHint)
         else if swaps = 4 * 3 then (j, decreasingHint)
         else (j, unknownHint))"

function reverseRange_loop :: "'a list \<Rightarrow> int \<Rightarrow> int \<Rightarrow> 'a list" where
  "reverseRange_loop data i j =
     (if i < j then reverseRange_loop (Swap data i j) (i + 1) (j - 1) else data)"
  by pat_completeness auto
termination
  by (relation "measure (\<lambda>(data, i, j). nat (j - i))") auto

declare reverseRange_loop.simps [simp del]

definition reverseRange_func :: "'a list \<Rightarrow> int \<Rightarrow> int \<Rightarrow> 'a list" where
  "reverseRange_func data a b = reverseRange_loop data a (b - 1)"

text \<open>\<^verbatim>\<open>partialInsertionSort_func\<close>: at most \<^verbatim>\<open>maxSteps = 5\<close> rounds, and no shifting on
  slices shorter than \<^verbatim>\<open>shortestShifting = 50\<close>. It returns the slice and whether it is
  sorted.\<close>

function partialInsertionSort_scan :: "('a \<Rightarrow> 'a \<Rightarrow> bool) \<Rightarrow> 'a list \<Rightarrow> int \<Rightarrow> int \<Rightarrow> int" where
  "partialInsertionSort_scan lessf data b i =
     (if i < b \<and> \<not> Less lessf data i (i - 1)
      then partialInsertionSort_scan lessf data b (i + 1) else i)"
  by pat_completeness auto
termination
  by (relation "measure (\<lambda>(lessf, data, b, i). nat (b - i))") auto

declare partialInsertionSort_scan.simps [simp del]

function shift_left :: "('a \<Rightarrow> 'a \<Rightarrow> bool) \<Rightarrow> 'a list \<Rightarrow> int \<Rightarrow> 'a list" where
  "shift_left lessf data j =
     (if j \<ge> 1
      then (if \<not> Less lessf data j (j - 1) then data
            else shift_left lessf (Swap data j (j - 1)) (j - 1))
      else data)"
  by pat_completeness auto
termination
  by (relation "measure (\<lambda>(lessf, data, j). nat j)") auto

declare shift_left.simps [simp del]

function shift_right :: "('a \<Rightarrow> 'a \<Rightarrow> bool) \<Rightarrow> 'a list \<Rightarrow> int \<Rightarrow> int \<Rightarrow> 'a list" where
  "shift_right lessf data b j =
     (if j < b
      then (if \<not> Less lessf data j (j - 1) then data
            else shift_right lessf (Swap data j (j - 1)) b (j + 1))
      else data)"
  by pat_completeness auto
termination
  by (relation "measure (\<lambda>(lessf, data, b, j). nat (b - j))") auto

declare shift_right.simps [simp del]

function partialInsertionSort_loop ::
  "('a \<Rightarrow> 'a \<Rightarrow> bool) \<Rightarrow> 'a list \<Rightarrow> int \<Rightarrow> int \<Rightarrow> int \<Rightarrow> int \<Rightarrow> 'a list \<times> bool" where
  "partialInsertionSort_loop lessf data a b i j =
     (if j < 5
      then (let i = partialInsertionSort_scan lessf data b i
            in if i = b then (data, True)
               else if b - a < 50 then (data, False)
               else (let data = Swap data i (i - 1);
                         data = (if i - a \<ge> 2 then shift_left lessf data (i - 1) else data);
                         data = (if b - i \<ge> 2 then shift_right lessf data b (i + 1) else data)
                     in partialInsertionSort_loop lessf data a b i (j + 1)))
      else (data, False))"
  by pat_completeness auto
termination
  by (relation "measure (\<lambda>(lessf, data, a, b, i, j). nat (5 - j))") auto

declare partialInsertionSort_loop.simps [simp del]

definition partialInsertionSort_func ::
  "('a \<Rightarrow> 'a \<Rightarrow> bool) \<Rightarrow> 'a list \<Rightarrow> int \<Rightarrow> int \<Rightarrow> 'a list \<times> bool" where
  "partialInsertionSort_func lessf data a b = partialInsertionSort_loop lessf data a b (a + 1) 0"

text \<open>\<^verbatim>\<open>partition_func\<close>: the pivot is moved to \<open>a\<close>, the scans from both ends exchange
  elements on the wrong side, and the pivot is moved to its place \<open>j\<close>. It returns the
  slice, the new index of the pivot, and whether no exchange was needed.\<close>

function partition_scan_i :: "('a \<Rightarrow> 'a \<Rightarrow> bool) \<Rightarrow> 'a list \<Rightarrow> int \<Rightarrow> int \<Rightarrow> int \<Rightarrow> int" where
  "partition_scan_i lessf data a i j =
     (if i \<le> j \<and> Less lessf data i a then partition_scan_i lessf data a (i + 1) j else i)"
  by pat_completeness auto
termination
  by (relation "measure (\<lambda>(lessf, data, a, i, j). nat (j + 1 - i))") auto

declare partition_scan_i.simps [simp del]

function partition_scan_j :: "('a \<Rightarrow> 'a \<Rightarrow> bool) \<Rightarrow> 'a list \<Rightarrow> int \<Rightarrow> int \<Rightarrow> int \<Rightarrow> int" where
  "partition_scan_j lessf data a i j =
     (if i \<le> j \<and> \<not> Less lessf data j a then partition_scan_j lessf data a i (j - 1) else j)"
  by pat_completeness auto
termination
  by (relation "measure (\<lambda>(lessf, data, a, i, j). nat (j + 1 - i))") auto

declare partition_scan_j.simps [simp del]

function partition_loop ::
  "('a \<Rightarrow> 'a \<Rightarrow> bool) \<Rightarrow> 'a list \<Rightarrow> int \<Rightarrow> int \<Rightarrow> int \<Rightarrow> 'a list \<times> int" where
  "partition_loop lessf data a i0 j0 =
     (let i = partition_scan_i lessf data a i0 j0;
          j = partition_scan_j lessf data a i j0
      in if i > j then (data, j)
         else partition_loop lessf (Swap data i j) a (i + 1) (j - 1))"
  by pat_completeness auto

lemma partition_scan_i_ge: "i \<le> partition_scan_i lessf data a i j"
  by (induction lessf data a i j rule: partition_scan_i.induct)
     (subst partition_scan_i.simps, auto)

lemma partition_scan_j_le: "partition_scan_j lessf data a i j \<le> j"
  by (induction lessf data a i j rule: partition_scan_j.induct)
     (subst partition_scan_j.simps, auto)

termination partition_loop
proof (relation "measure (\<lambda>(lessf, data, a, i, j). nat (j + 1 - i))", goal_cases)
  case 1
  then show ?case by simp
next
  case (2 lessf data a i0 j0 i j)
  have "i0 \<le> i" using 2 partition_scan_i_ge by metis
  moreover have "j \<le> j0" using 2 partition_scan_j_le by metis
  ultimately show ?case using 2 by simp
qed

declare partition_loop.simps [simp del]

definition partition_func ::
  "('a \<Rightarrow> 'a \<Rightarrow> bool) \<Rightarrow> 'a list \<Rightarrow> int \<Rightarrow> int \<Rightarrow> int \<Rightarrow> 'a list \<times> int \<times> bool" where
  "partition_func lessf data0 a b pivot =
     (let data = Swap data0 a pivot;
          i = partition_scan_i lessf data a (a + 1) (b - 1);
          j = partition_scan_j lessf data a i (b - 1)
      in if i > j then (Swap data j a, j, True)
         else (case partition_loop lessf (Swap data i j) a (i + 1) (j - 1) of
                 (data, j) \<Rightarrow> (Swap data j a, j, False)))"

text \<open>\<^verbatim>\<open>partitionEqual_func\<close>: elements equal to the pivot to the left, greater ones to
  the right.\<close>

function partitionEqual_scan_i :: "('a \<Rightarrow> 'a \<Rightarrow> bool) \<Rightarrow> 'a list \<Rightarrow> int \<Rightarrow> int \<Rightarrow> int \<Rightarrow> int" where
  "partitionEqual_scan_i lessf data a i j =
     (if i \<le> j \<and> \<not> Less lessf data a i then partitionEqual_scan_i lessf data a (i + 1) j else i)"
  by pat_completeness auto
termination
  by (relation "measure (\<lambda>(lessf, data, a, i, j). nat (j + 1 - i))") auto

declare partitionEqual_scan_i.simps [simp del]

function partitionEqual_scan_j :: "('a \<Rightarrow> 'a \<Rightarrow> bool) \<Rightarrow> 'a list \<Rightarrow> int \<Rightarrow> int \<Rightarrow> int \<Rightarrow> int" where
  "partitionEqual_scan_j lessf data a i j =
     (if i \<le> j \<and> Less lessf data a j then partitionEqual_scan_j lessf data a i (j - 1) else j)"
  by pat_completeness auto
termination
  by (relation "measure (\<lambda>(lessf, data, a, i, j). nat (j + 1 - i))") auto

declare partitionEqual_scan_j.simps [simp del]

function partitionEqual_loop ::
  "('a \<Rightarrow> 'a \<Rightarrow> bool) \<Rightarrow> 'a list \<Rightarrow> int \<Rightarrow> int \<Rightarrow> int \<Rightarrow> 'a list \<times> int" where
  "partitionEqual_loop lessf data a i0 j0 =
     (let i = partitionEqual_scan_i lessf data a i0 j0;
          j = partitionEqual_scan_j lessf data a i j0
      in if i > j then (data, i)
         else partitionEqual_loop lessf (Swap data i j) a (i + 1) (j - 1))"
  by pat_completeness auto

lemma partitionEqual_scan_i_ge: "i \<le> partitionEqual_scan_i lessf data a i j"
  by (induction lessf data a i j rule: partitionEqual_scan_i.induct)
     (subst partitionEqual_scan_i.simps, auto)

lemma partitionEqual_scan_j_le: "partitionEqual_scan_j lessf data a i j \<le> j"
  by (induction lessf data a i j rule: partitionEqual_scan_j.induct)
     (subst partitionEqual_scan_j.simps, auto)

termination partitionEqual_loop
proof (relation "measure (\<lambda>(lessf, data, a, i, j). nat (j + 1 - i))", goal_cases)
  case 1
  then show ?case by simp
next
  case (2 lessf data a i0 j0 i j)
  have "i0 \<le> i" using 2 partitionEqual_scan_i_ge by metis
  moreover have "j \<le> j0" using 2 partitionEqual_scan_j_le by metis
  ultimately show ?case using 2 by simp
qed

declare partitionEqual_loop.simps [simp del]

definition partitionEqual_func ::
  "('a \<Rightarrow> 'a \<Rightarrow> bool) \<Rightarrow> 'a list \<Rightarrow> int \<Rightarrow> int \<Rightarrow> int \<Rightarrow> 'a list \<times> int" where
  "partitionEqual_func lessf data a b pivot =
     partitionEqual_loop lessf (Swap data a pivot) a (a + 1) (b - 1)"

text \<open>\<^verbatim>\<open>pdqsort_func\<close>. The flags \<^verbatim>\<open>wasBalanced\<close> and \<^verbatim>\<open>wasPartitioned\<close> are local to a call
  (true at its start) and carried from one round of its loop to the next.\<close>

primrec pdqsort_func ::
  "nat \<Rightarrow> ('a \<Rightarrow> 'a \<Rightarrow> bool) \<Rightarrow> 'a list \<Rightarrow> int \<Rightarrow> int \<Rightarrow> int \<Rightarrow> bool \<Rightarrow> bool \<Rightarrow> 'a list option" where
  "pdqsort_func 0 lessf data a b limit wasBalanced wasPartitioned = None"
| "pdqsort_func (Suc fuel) lessf data a b limit wasBalanced wasPartitioned =
     (let length = b - a
      in if length \<le> 12 then Some (insertionSort_func lessf data a b)
         else if limit = 0 then None
         else if \<not> wasBalanced then None
         else (case choosePivot_func lessf data a b of
                 (pivot0, hint0) \<Rightarrow>
           (case (if hint0 = decreasingHint
                  then (reverseRange_func data a b, (b - 1) - (pivot0 - a), increasingHint)
                  else (data, pivot0, hint0)) of
              (data1, pivot, hint) \<Rightarrow>
           (case (if wasBalanced \<and> wasPartitioned \<and> hint = increasingHint
                  then partialInsertionSort_func lessf data1 a b
                  else (data1, False)) of
              (data2, True) \<Rightarrow> Some data2
            | (data2, False) \<Rightarrow>
                if a > 0 \<and> \<not> Less lessf data2 (a - 1) pivot
                then (case partitionEqual_func lessf data2 a b pivot of
                        (data3, mid) \<Rightarrow>
                          pdqsort_func fuel lessf data3 mid b limit wasBalanced wasPartitioned)
                else (case partition_func lessf data2 a b pivot of
                        (data3, mid, alreadyPartitioned) \<Rightarrow>
                          (let leftLen = mid - a;
                               rightLen = b - mid;
                               balanceThreshold = length div 8
                           in if leftLen < rightLen
                              then (case pdqsort_func fuel lessf data3 a mid limit True True of
                                      None \<Rightarrow> None
                                    | Some data4 \<Rightarrow>
                                        pdqsort_func fuel lessf data4 (mid + 1) b limit
                                          (leftLen \<ge> balanceThreshold) alreadyPartitioned)
                              else (case pdqsort_func fuel lessf data3 (mid + 1) b limit True True of
                                      None \<Rightarrow> None
                                    | Some data4 \<Rightarrow>
                                        pdqsort_func fuel lessf data4 a mid limit
                                          (rightLen \<ge> balanceThreshold) alreadyPartitioned)))))))"

text \<open>\<^verbatim>\<open>bits.Len\<close>: the number of bits of a number.\<close>

fun bits_Len :: "nat \<Rightarrow> nat" where
  "bits_Len n = (if n = 0 then 0 else Suc (bits_Len (n div 2)))"

definition Slice :: "('a \<Rightarrow> 'a \<Rightarrow> bool) \<Rightarrow> 'a list \<Rightarrow> 'a list option" where
  "Slice lessf x =
     pdqsort_func (Suc (length x)) lessf x 0 (int (length x)) (int (bits_Len (length x))) True True"

text \<open>
  The run as a sort to pass to the analyzer. Where the model of the run has no value the
  slice is left as it is; the statements about this sort are about inputs for which
  \<open>Slice\<close> is shown to have a value.
\<close>

definition sort_Slice_go :: "'a slice_sort" where
  "sort_Slice_go lessf x = (case Slice lessf x of Some result \<Rightarrow> result | None \<Rightarrow> x)"

section \<open>Example data\<close>

text \<open>
  The merge requests of \<^verbatim>\<open>TestFilterAndSortConflictingMRs\<close> (with \<^verbatim>\<open>now\<close> at 3600 and one
  hour earlier at 0), and a remote side with four repositories: repository 1 has no
  merge request, repository 2 has two conflicting ones (one with changes, one whose
  change lookup fails), the merge-request listing of repository 3 fails, and repository
  4 has one conflicting merge request without changes.
\<close>

definition example_mr :: "int \<Rightarrow> string \<Rightarrow> string \<Rightarrow> bool \<Rightarrow> int \<Rightarrow> MergeRequest" where
  "example_mr mrID sourceBranch targetBranch hasConflicts createdAt =
     \<lparr>MergeRequest.ID = mrID, Title = [],
      Author = \<lparr>Author.Name = [], Username = [], Email = []\<rparr>, WebURL = [],
      SourceBranch = sourceBranch, TargetBranch = targetBranch, HasConflicts = hasConflicts,
      CreatedAt = createdAt, MergeStatus = [], ChangesCount = []\<rparr>"

definition test_mrs :: "MergeRequest list" where
  "test_mrs =
     [example_mr 1 ''release'' ''master'' True 0,
      example_mr 2 ''feature'' ''master'' True 3600,
      example_mr 3 ''release'' ''develop'' True 3600,
      example_mr 4 ''release'' ''master'' False 3600,
      example_mr 5 ''release'' ''master'' True 3600]"

definition example_repo :: "int \<Rightarrow> int \<Rightarrow> RepositoryStatus \<Rightarrow> error option \<Rightarrow> Repository" where
  "example_repo repoID namespaceID status err =
     \<lparr>Repository.ID = repoID, Name = ''test-repo'', WebURL = [],
      Namespace = \<lparr>Namespace.ID = namespaceID, Name = ''group'', Path = []\<rparr>,
      Status = status, Error = err\<rparr>"

definition scenario_repos :: "Repository list" where
  "scenario_repos =
     [example_repo 1 10 StatusAccessible None, example_repo 2 20 StatusAccessible None,
      example_repo 3 10 StatusAccessible None, example_repo 4 20 StatusAccessible None]"

definition scenario_Client :: Client where
  "scenario_Client =
     \<lparr>projects_page = (\<lambda>page. if page = 1 then Decoded scenario_repos else Decoded []),
      ListMergeRequests = (\<lambda>projectID sourceBranch targetBranch.
        if projectID = 2
        then Inr [example_mr 1 ''release'' ''master'' True 100,
                  example_mr 2 ''release'' ''master'' True 200]
        else if projectID = 3 then Inl (Failure ''API error 500: '')
        else if projectID = 4 then Inr [example_mr 7 ''release'' ''master'' True 50]
        else Inr []),
      GetMergeRequestChanges = (\<lambda>projectID mrID.
        if projectID = 2 \<and> mrID = 1 then Inr 3
        else if projectID = 2 \<and> mrID = 2 then Inl (Failure ''rate limit exceeded'')
        else Inr 0)\<rparr>"

definition scenario_scanner :: "int list \<Rightarrow> RepositoryScanner" where
  "scenario_scanner groups = \<lparr>client = scenario_Client, includeGroups = groups\<rparr>"

text \<open>A remote side with 101 repositories, served as one full page and a page of one.\<close>

definition numbered_repos :: "nat \<Rightarrow> nat \<Rightarrow> Repository list" where
  "numbered_repos startID n =
     map (\<lambda>i. example_repo (int i) (int (i mod 2)) StatusAccessible None) [startID..<startID + n]"

definition paged_Client :: Client where
  "paged_Client =
     \<lparr>projects_page = (\<lambda>page. if page = 1 then Decoded (numbered_repos 1 100)
                              else if page = 2 then Decoded (numbered_repos 101 1)
                              else Decoded []),
      ListMergeRequests = (\<lambda>projectID sourceBranch targetBranch. Inr []),
      GetMergeRequestChanges = (\<lambda>projectID mrID. Inr 0)\<rparr>"

definition paged_pages :: "Repository list list" where
  "paged_pages = [numbered_repos 1 100, numbered_repos 101 1]"

definition paged_scanner :: RepositoryScanner where
  "paged_scanner = \<lparr>client = paged_Client, includeGroups = [1]\<rparr>"

text \<open>Inputs of the analyzer: the repositories of \<^verbatim>\<open>TestAnalyzeMRs_WithErrorRepository\<close>
  extended by one, and the scenario with statuses set.\<close>

definition error_repos :: "Repository list" where
  "error_repos =
     [example_repo 1 10 StatusError (Some (Failure ''test error'')),
      example_repo 3 10 StatusAccessible None,
      example_repo 2 20 StatusAccessible None]"

definition conflict_repos :: "Repository list" where
  "conflict_repos =
     [example_repo 1 10 StatusNoMRs None, example_repo 2 20 StatusConflicts None,
      example_repo 3 10 StatusConflicts None, example_repo 4 20 StatusConflicts None]"

text \<open>Thirteen conflicting merge requests from \<^verbatim>\<open>release\<close> to \<^verbatim>\<open>master\<close>: twelve created at
  the same instant, followed by a newer one.\<close>

definition tied_mrs :: "MergeRequest list" where
  "tied_mrs =
     map (\<lambda>i. example_mr i ''release'' ''master'' True (if i = 13 then 200 else 100))
       [1, 2, 3, 4, 5, 6, 7, 8, 9, 10, 11, 12, 13]"

section \<open>Derived descriptions\<close>

text \<open>
  Closed forms of the loops, used to state and prove the properties below, and a sort that
  meets the contract of \<^verbatim>\<open>sort.Slice\<close>, used to instantiate them.
\<close>

fun insert_by :: "('a \<Rightarrow> 'a \<Rightarrow> bool) \<Rightarrow> 'a \<Rightarrow> 'a list \<Rightarrow> 'a list" where
  "insert_by lessf x [] = [x]"
| "insert_by lessf x (y # ys) = (if lessf x y then x # y # ys else y # insert_by lessf x ys)"

definition insertion_sort :: "'a slice_sort" where
  "insertion_sort lessf xs = foldr (insert_by lessf) xs []"

definition lookup_failed_or_positive :: "Client \<Rightarrow> int \<Rightarrow> int \<Rightarrow> bool" where
  "lookup_failed_or_positive c projectID mrID =
     (case GetMergeRequestChanges c projectID mrID of Inl err \<Rightarrow> True | Inr n \<Rightarrow> 0 < n)"

definition real_conflict :: "Client \<Rightarrow> int \<Rightarrow> MergeRequest \<Rightarrow> bool" where
  "real_conflict c projectID mr \<longleftrightarrow>
     release_master_conflict mr \<and> lookup_failed_or_positive c projectID (MergeRequest.ID mr)"

definition change_requests :: "int \<Rightarrow> MergeRequest list \<Rightarrow> trace" where
  "change_requests projectID mrs =
     map (\<lambda>mr. Call_GetMergeRequestChanges projectID (MergeRequest.ID mr))
       (filter release_master_conflict mrs)"

text \<open>The requests \<^verbatim>\<open>analyzeRepository\<close> makes for one repository.\<close>

definition analyze_requests :: "Client \<Rightarrow> Repository \<Rightarrow> trace" where
  "analyze_requests c repo =
     Call_ListMergeRequests (Repository.ID repo) ''release'' ''master'' #
     (case ListMergeRequests c (Repository.ID repo) ''release'' ''master'' of
        Inl err \<Rightarrow> []
      | Inr mrs \<Rightarrow> change_requests (Repository.ID repo) mrs)"

text \<open>What one round of the loop of \<^verbatim>\<open>AnalyzeMRs\<close> appends to \<^verbatim>\<open>analyzedRepos\<close> and to the
  trace.\<close>

definition AnalyzeMRs_round ::
  "MergeRequest slice_sort \<Rightarrow> Client \<Rightarrow> Repository \<Rightarrow> Repository \<times> trace" where
  "AnalyzeMRs_round sort_Slice c repo =
     (if Repository.Status repo = StatusError then (repo, [])
      else (case analyzeRepository sort_Slice c repo [] of
              ((analyzedRepo, Some err), tr) \<Rightarrow>
                (repo\<lparr>Repository.Status := StatusError, Error := Some err\<rparr>, tr)
            | ((analyzedRepo, None), tr) \<Rightarrow> (analyzedRepo, tr)))"

definition conflicts_of :: "MergeRequest slice_sort \<Rightarrow> Client \<Rightarrow> int \<Rightarrow> MergeRequest list" where
  "conflicts_of sort_Slice c projectID =
     (case ListMergeRequests c projectID ''release'' ''master'' of
        Inl err \<Rightarrow> []
      | Inr mrs \<Rightarrow> sort_Slice created_after (filter (real_conflict c projectID) mrs))"

definition GetConflictingMRs_requests :: "Client \<Rightarrow> Repository \<Rightarrow> trace" where
  "GetConflictingMRs_requests c repo =
     (if Repository.Status repo = StatusConflicts then analyze_requests c repo else [])"

definition conflict_keys :: "MergeRequest slice_sort \<Rightarrow> Client \<Rightarrow> Repository list \<Rightarrow> int set" where
  "conflict_keys sort_Slice c repos =
     Repository.ID ` {r \<in> set repos. Repository.Status r = StatusConflicts \<and>
                                     conflicts_of sort_Slice c (Repository.ID r) \<noteq> []}"

text \<open>The invariant of the data model: the status is \<^verbatim>\<open>StatusError\<close> exactly when the
  error is set.\<close>

definition error_status_consistent :: "Repository \<Rightarrow> bool" where
  "error_status_consistent repo \<longleftrightarrow> (Repository.Status repo = StatusError \<longleftrightarrow> Error repo \<noteq> None)"

text \<open>The test of the whitelist, and what identifies a repository: every field the
  scanner does not set.\<close>

definition passes_whitelist :: "RepositoryScanner \<Rightarrow> Repository \<Rightarrow> bool" where
  "passes_whitelist rs repo \<longleftrightarrow>
     includeGroups rs = [] \<or> Namespace.ID (Namespace repo) \<in> set (includeGroups rs)"

definition identity :: "Repository \<Rightarrow> int \<times> string \<times> string \<times> Namespace" where
  "identity repo =
     (Repository.ID repo, Repository.Name repo, Repository.WebURL repo, Namespace repo)"

text \<open>
  The remote side of the tests (\<^verbatim>\<open>createMockGitLabServer\<close>, and GitLab itself) cuts its
  repositories into pages of the size asked for: page \<open>n\<close> holds the elements from
  \<^verbatim>\<open>(n - 1) * per_page\<close> up to \<^verbatim>\<open>n * per_page\<close>, as far as there are any (\<^verbatim>\<open>repos[start:end]\<close>,
  for the pages from 1 on that the client asks for).
\<close>

definition mock_page :: "'a list \<Rightarrow> int \<Rightarrow> int \<Rightarrow> 'a list" where
  "mock_page repos page pageSize =
     (let start = (page - 1) * pageSize;
          end0 = start + pageSize;
          end1 = (if end0 > int (length repos) then int (length repos) else end0)
      in if start < int (length repos) then drop (nat start) (take (nat end1) repos) else [])"

text \<open>Stability of a sort on ties: the elements of each creation timestamp come out in
  the order they went in.\<close>

definition keeps_order_of_ties :: "MergeRequest list \<Rightarrow> MergeRequest list \<Rightarrow> bool" where
  "keeps_order_of_ties input output \<longleftrightarrow>
     list_all (\<lambda>t. filter (\<lambda>mr. CreatedAt mr = t) output = filter (\<lambda>mr. CreatedAt mr = t) input)
       (map CreatedAt input)"

section \<open>Properties of the loops\<close>

lemma mset_insert_by: "mset (insert_by lessf x ys) = add_mset x (mset ys)"
  by (induction ys) auto

lemma set_insert_by: "set (insert_by lessf x ys) = insert x (set ys)"
  by (induction ys) auto

lemma sorted_insert_by:
  assumes "strict_weak_order lessf" and "sorted_wrt (\<lambda>a b. \<not> lessf b a) ys"
  shows "sorted_wrt (\<lambda>a b. \<not> lessf b a) (insert_by lessf x ys)"
  using assms(2)
proof (induction ys)
  case Nil
  then show ?case by simp
next
  case (Cons y ys)
  have irr: "\<And>a. \<not> lessf a a" and tr: "\<And>a b c. lessf a b \<Longrightarrow> lessf b c \<Longrightarrow> lessf a c"
    using assms(1) unfolding strict_weak_order_def by blast+
  show ?case
  proof (cases "lessf x y")
    case True
    have "\<not> lessf y x" using True tr irr by blast
    moreover have "\<forall>z\<in>set ys. \<not> lessf z x"
      using Cons.prems True tr by auto
    ultimately show ?thesis using True Cons.prems by simp
  next
    case False
    then show ?thesis using Cons by (auto simp: set_insert_by)
  qed
qed

lemma insertion_sort_permutes: "sort_permutes insertion_sort"
  unfolding sort_permutes_def insertion_sort_def
proof (intro allI)
  fix lessf :: "'a \<Rightarrow> 'a \<Rightarrow> bool" and xs
  show "mset (foldr (insert_by lessf) xs []) = mset xs"
    by (induction xs) (simp_all add: mset_insert_by)
qed

lemma insertion_sort_orders: "sort_orders insertion_sort"
  unfolding sort_orders_def insertion_sort_def
proof (intro allI impI)
  fix lessf :: "'a \<Rightarrow> 'a \<Rightarrow> bool" and xs
  assume "strict_weak_order lessf"
  then show "sorted_wrt (\<lambda>a b. \<not> lessf b a) (foldr (insert_by lessf) xs [])"
    by (induction xs) (simp_all add: sorted_insert_by)
qed

lemma insertion_sort_contract: "sort_Slice_contract insertion_sort"
  by (simp add: sort_Slice_contract_def insertion_sort_permutes insertion_sort_orders)

lemma strict_weak_order_created_after: "strict_weak_order created_after"
  by (auto simp: strict_weak_order_def created_after_def)

lemma filterConflictingMRs_loop_eq:
  "filterConflictingMRs_loop mrs acc = acc @ filter release_master_conflict mrs"
  by (induction mrs arbitrary: acc) (simp_all add: release_master_conflict_def)

lemma hasActualChanges_eq:
  "hasActualChanges c projectID mrID tr =
     (lookup_failed_or_positive c projectID mrID, tr @ [Call_GetMergeRequestChanges projectID mrID])"
  by (simp add: hasActualChanges_def call_GetMergeRequestChanges_def lookup_failed_or_positive_def
      split: sum.splits)

lemma filterRealConflictingMRs_loop_eq:
  "filterRealConflictingMRs_loop c projectID mrs acc tr =
     (acc @ filter (real_conflict c projectID) mrs, tr @ change_requests projectID mrs)"
  by (induction mrs arbitrary: acc tr)
     (simp_all add: hasActualChanges_eq real_conflict_def release_master_conflict_def
        change_requests_def)

lemma filterAndSortRealConflictingMRs_eq:
  "filterAndSortRealConflictingMRs sort_Slice c projectID mrs tr =
     (sort_Slice created_after (filter (real_conflict c projectID) mrs),
      tr @ change_requests projectID mrs)"
  by (simp add: filterAndSortRealConflictingMRs_def filterRealConflictingMRs_loop_eq)

lemma filterAndSortConflictingMRs_eq:
  "filterAndSortConflictingMRs sort_Slice mrs =
     sort_Slice created_after (filter release_master_conflict mrs)"
  by (simp add: filterAndSortConflictingMRs_def filterConflictingMRs_loop_eq)

lemma sorted_newest_first:
  assumes "sort_orders sort_Slice"
  shows "sorted_wrt (\<lambda>a b. CreatedAt b \<le> CreatedAt a) (sort_Slice created_after xs)"
proof -
  have "sorted_wrt (\<lambda>a b. \<not> created_after b a) (sort_Slice created_after xs)"
    using assms strict_weak_order_created_after unfolding sort_orders_def by blast
  then show ?thesis
    by (simp add: created_after_def not_less)
qed

lemma analyzeRepository_eq:
  "analyzeRepository sort_Slice c repo tr =
     (case ListMergeRequests c (Repository.ID repo) ''release'' ''master'' of
        Inl err \<Rightarrow>
          (repo, Some (Errorf ''failed to fetch merge requests for repository %s: %w''
                         [S (Repository.Name repo)] (Some err)))
      | Inr mrs \<Rightarrow>
          (if sort_Slice created_after (filter (real_conflict c (Repository.ID repo)) mrs) \<noteq> []
           then repo\<lparr>Repository.Status := StatusConflicts\<rparr>
           else if mrs \<noteq> [] then repo\<lparr>Repository.Status := StatusAccessible\<rparr>
           else repo\<lparr>Repository.Status := StatusNoMRs\<rparr>, None),
      tr @ analyze_requests c repo)"
  by (simp add: analyzeRepository_def call_ListMergeRequests_def
      filterAndSortRealConflictingMRs_eq analyze_requests_def split: sum.splits)

lemma AnalyzeMRs_loop_eq:
  "AnalyzeMRs_loop sort_Slice c repos acc tr =
     (acc @ map (\<lambda>repo. fst (AnalyzeMRs_round sort_Slice c repo)) repos,
      tr @ concat (map (\<lambda>repo. snd (AnalyzeMRs_round sort_Slice c repo)) repos))"
proof (induction repos arbitrary: acc tr)
  case Nil
  then show ?case by simp
next
  case (Cons repo repos)
  show ?case
  proof (cases "Repository.Status repo = StatusError")
    case True
    then show ?thesis by (simp add: Cons.IH AnalyzeMRs_round_def)
  next
    case False
    show ?thesis
    proof (cases "ListMergeRequests c (Repository.ID repo) ''release'' ''master''")
      case (Inl err)
      then show ?thesis
        using False by (simp add: Cons.IH AnalyzeMRs_round_def analyzeRepository_eq)
    next
      case (Inr mrs)
      then show ?thesis
        using False by (simp add: Cons.IH AnalyzeMRs_round_def analyzeRepository_eq)
    qed
  qed
qed

lemma AnalyzeMRs_Some_eq:
  "AnalyzeMRs sort_Slice (Some c) repos tr =
     (Inr (map (\<lambda>repo. fst (AnalyzeMRs_round sort_Slice c repo)) repos),
      tr @ concat (map (\<lambda>repo. snd (AnalyzeMRs_round sort_Slice c repo)) repos))"
  by (simp add: AnalyzeMRs_def AnalyzeMRs_loop_eq)

lemma AnalyzeMRs_round_Error:
  "Repository.Status repo = StatusError \<Longrightarrow> AnalyzeMRs_round sort_Slice c repo = (repo, [])"
  by (simp add: AnalyzeMRs_round_def)

lemma AnalyzeMRs_round_fetch_failed:
  "Repository.Status repo \<noteq> StatusError \<Longrightarrow>
   ListMergeRequests c (Repository.ID repo) ''release'' ''master'' = Inl err \<Longrightarrow>
   AnalyzeMRs_round sort_Slice c repo =
     (repo\<lparr>Repository.Status := StatusError,
           Error := Some (Errorf ''failed to fetch merge requests for repository %s: %w''
                            [S (Repository.Name repo)] (Some err))\<rparr>,
      [Call_ListMergeRequests (Repository.ID repo) ''release'' ''master''])"
  by (simp add: AnalyzeMRs_round_def analyzeRepository_eq analyze_requests_def)

lemma AnalyzeMRs_round_fetched:
  "Repository.Status repo \<noteq> StatusError \<Longrightarrow>
   ListMergeRequests c (Repository.ID repo) ''release'' ''master'' = Inr mrs \<Longrightarrow>
   AnalyzeMRs_round sort_Slice c repo =
     (if sort_Slice created_after (filter (real_conflict c (Repository.ID repo)) mrs) \<noteq> []
      then repo\<lparr>Repository.Status := StatusConflicts\<rparr>
      else if mrs \<noteq> [] then repo\<lparr>Repository.Status := StatusAccessible\<rparr>
      else repo\<lparr>Repository.Status := StatusNoMRs\<rparr>,
      Call_ListMergeRequests (Repository.ID repo) ''release'' ''master'' #
        change_requests (Repository.ID repo) mrs)"
  by (simp add: AnalyzeMRs_round_def analyzeRepository_eq analyze_requests_def)

lemma sort_permutes_Nil_iff:
  "sort_permutes sort_Slice \<Longrightarrow> sort_Slice lessf xs = [] \<longleftrightarrow> xs = []"
  unfolding sort_permutes_def by (metis mset_zero_iff)

lemma sort_permutes_set:
  "sort_permutes sort_Slice \<Longrightarrow> set (sort_Slice lessf xs) = set xs"
  unfolding sort_permutes_def by (metis set_mset_mset)

lemma conflict_keys_Nil: "conflict_keys sort_Slice c [] = {}"
  by (simp add: conflict_keys_def)

lemma conflict_keys_Cons:
  "conflict_keys sort_Slice c (repo # repos) =
     (if Repository.Status repo = StatusConflicts \<and> conflicts_of sort_Slice c (Repository.ID repo) \<noteq> []
      then insert (Repository.ID repo) (conflict_keys sort_Slice c repos)
      else conflict_keys sort_Slice c repos)"
  by (auto simp: conflict_keys_def)

lemma GetConflictingMRs_loop_eq:
  "GetConflictingMRs_loop sort_Slice (Some c) repos m tr =
     Returned
       (\<lambda>k. if k \<in> conflict_keys sort_Slice c repos
            then Some (conflicts_of sort_Slice c k) else m k,
        tr @ concat (map (GetConflictingMRs_requests c) repos))"
proof (induction repos arbitrary: m tr)
  case Nil
  then show ?case by (simp add: conflict_keys_Nil)
next
  case (Cons repo repos)
  show ?case
  proof (cases "Repository.Status repo = StatusConflicts")
    case False
    then show ?thesis
      by (simp add: Cons.IH GetConflictingMRs_requests_def conflict_keys_Cons)
  next
    case True
    show ?thesis
    proof (cases "ListMergeRequests c (Repository.ID repo) ''release'' ''master''")
      case (Inl err)
      then have "conflicts_of sort_Slice c (Repository.ID repo) = []"
        by (simp add: conflicts_of_def)
      then show ?thesis
        using True Inl
        by (simp add: Cons.IH GetConflictingMRs_requests_def call_ListMergeRequests_def
            analyze_requests_def conflict_keys_Cons)
    next
      case (Inr mrs)
      then have co: "conflicts_of sort_Slice c (Repository.ID repo) =
          sort_Slice created_after (filter (real_conflict c (Repository.ID repo)) mrs)"
        by (simp add: conflicts_of_def)
      show ?thesis
      proof (cases "conflicts_of sort_Slice c (Repository.ID repo) = []")
        case e: True
        then show ?thesis
          using True Inr co
          by (simp add: Cons.IH GetConflictingMRs_requests_def call_ListMergeRequests_def
              analyze_requests_def filterAndSortRealConflictingMRs_eq conflict_keys_Cons)
      next
        case ne: False
        have "GetConflictingMRs_loop sort_Slice (Some c) (repo # repos) m tr =
              GetConflictingMRs_loop sort_Slice (Some c) repos
                (m(Repository.ID repo \<mapsto> conflicts_of sort_Slice c (Repository.ID repo)))
                (tr @ GetConflictingMRs_requests c repo)"
          using True Inr co ne
          by (simp add: GetConflictingMRs_requests_def call_ListMergeRequests_def
              analyze_requests_def filterAndSortRealConflictingMRs_eq)
        also have "\<dots> = Returned
           (\<lambda>k. if k \<in> conflict_keys sort_Slice c (repo # repos)
            then Some (conflicts_of sort_Slice c k) else m k,
            tr @ concat (map (GetConflictingMRs_requests c) (repo # repos)))"
          using True ne by (auto simp: Cons.IH fun_eq_iff conflict_keys_Cons)
        finally show ?thesis .
      qed
    qed
  qed
qed

lemma GetConflictingMRs_Some_eq:
  "GetConflictingMRs sort_Slice (Some c) repos tr =
     Returned
       ((\<lambda>k. if k \<in> conflict_keys sort_Slice c repos
             then Some (conflicts_of sort_Slice c k) else None, None),
        tr @ concat (map (GetConflictingMRs_requests c) repos))"
  by (simp add: GetConflictingMRs_def GetConflictingMRs_loop_eq)

lemma GetConflictingMRs_nil_client:
  "GetConflictingMRs sort_Slice None repos tr =
     (if list_ex (\<lambda>r. Repository.Status r = StatusConflicts) repos then Panic
      else Returned ((Map.empty, None), tr))"
proof -
  have "GetConflictingMRs_loop sort_Slice None repos m tr =
     (if list_ex (\<lambda>r. Repository.Status r = StatusConflicts) repos then Panic
      else Returned (m, tr))" for m
    by (induction repos arbitrary: m tr) simp_all
  then show ?thesis by (simp add: GetConflictingMRs_def)
qed

lemma hasConflicts_loop_eq:
  "hasConflicts_loop mrs b \<longleftrightarrow> b \<or> (\<exists>mr\<in>set mrs. HasConflicts mr)"
  by (induction mrs) auto

lemma processRepository_eq:
  "processRepository rs repo tr =
     (case ListMergeRequests (client rs) (Repository.ID repo) ''release'' ''master'' of
        Inl err \<Rightarrow> repo\<lparr>Repository.Status := StatusError, Error := Some err\<rparr>
      | Inr mrs \<Rightarrow>
          repo\<lparr>Repository.Status :=
                  (if mrs = [] then StatusNoMRs
                   else if \<exists>mr\<in>set mrs. HasConflicts mr then StatusConflicts
                   else StatusNoMRs),
               Error := None\<rparr>,
      tr @ [Call_ListMergeRequests (Repository.ID repo) ''release'' ''master''])"
  by (simp add: processRepository_def call_ListMergeRequests_def Let_def hasConflicts_loop_eq
      split: sum.splits)

lemma processRepositories_eq:
  "processRepositories rs repos tr =
     (map (\<lambda>repo. fst (processRepository rs repo [])) repos,
      tr @ map (\<lambda>repo. Call_ListMergeRequests (Repository.ID repo) ''release'' ''master'') repos)"
proof (induction repos arbitrary: tr)
  case Nil
  then show ?case by simp
next
  case (Cons repo repos)
  have "processRepository rs repo tr =
      (fst (processRepository rs repo []),
       tr @ [Call_ListMergeRequests (Repository.ID repo) ''release'' ''master''])"
    by (simp add: processRepository_eq)
  then show ?case by (simp add: Cons.IH)
qed

lemma ScanRepositories_listed:
  assumes "ListRepositories (client rs) tr = Some (Inr repos, tr1)"
  shows "ScanRepositories rs tr =
     Some (Inr (map (\<lambda>repo. fst (processRepository rs repo [])) (filterRepositories rs repos)),
           tr1 @ map (\<lambda>repo. Call_ListMergeRequests (Repository.ID repo) ''release'' ''master'')
                   (filterRepositories rs repos))"
  by (simp add: ScanRepositories_def assms processRepositories_eq)

lemma filterRepositories_eq:
  "filterRepositories rs repos =
     filter (\<lambda>repo. includeGroups rs = [] \<or>
                    Namespace.ID (Namespace repo) \<in> set (includeGroups rs)) repos"
  by (simp add: filterRepositories_def)

lemma page_requests_Suc:
  "map (\<lambda>i. Call_projects_page (page + int i)) [0..<Suc n] =
     Call_projects_page page # map (\<lambda>i. Call_projects_page (page + 1 + int i)) [0..<n]"
proof -
  have "[0..<Suc n] = 0 # map Suc [0..<n]"
    by (simp add: upt_conv_Cons map_Suc_upt del: upt_Suc)
  then show ?thesis by (simp add: add.assoc comp_def del: upt_Suc)
qed

text \<open>Pages are numbered from the page the loop is at.\<close>

lemma ListRepositories_loop_pages:
  assumes "\<forall>p\<in>set fulls. perPage \<le> int (length p)"
    and "int (length lst) < perPage"
    and "\<forall>i<length (fulls @ [lst]). projects_page c (page + int i) = Decoded ((fulls @ [lst]) ! i)"
  shows "ListRepositories_loop c page acc tr =
     Some (Inr (acc @ concat (fulls @ [lst])),
           tr @ map (\<lambda>i. Call_projects_page (page + int i)) [0..<length (fulls @ [lst])])"
  using assms
proof (induction fulls arbitrary: page acc tr)
  case Nil
  then have "projects_page c page = Decoded lst" by simp
  then show ?case
    using Nil.prems(2) by (subst ListRepositories_loop.simps) simp
next
  case (Cons p fulls)
  have p: "projects_page c page = Decoded p"
    using Cons.prems(3) by (auto dest: spec [of _ 0])
  have full: "\<not> int (length p) < perPage"
    using Cons.prems(1) by simp
  have served: "\<forall>i<length (fulls @ [lst]). projects_page c (page + 1 + int i) = Decoded ((fulls @ [lst]) ! i)"
  proof (intro allI impI)
    fix i assume "i < length (fulls @ [lst])"
    then have "Suc i < length ((p # fulls) @ [lst])" by simp
    then have "projects_page c (page + int (Suc i)) = Decoded (((p # fulls) @ [lst]) ! Suc i)"
      using Cons.prems(3) by blast
    then show "projects_page c (page + 1 + int i) = Decoded ((fulls @ [lst]) ! i)"
      by (simp add: add.assoc)
  qed
  have IH: "ListRepositories_loop c (page + 1) (acc @ p) (tr @ [Call_projects_page page]) =
     Some (Inr ((acc @ p) @ concat (fulls @ [lst])),
           (tr @ [Call_projects_page page]) @
             map (\<lambda>i. Call_projects_page (page + 1 + int i)) [0..<length (fulls @ [lst])])"
    using Cons.prems(1,2) served by (intro Cons.IH) auto
  show ?case
    by (subst ListRepositories_loop.simps) (simp add: p full IH page_requests_Suc del: upt_Suc)
qed

text \<open>The loop stops at the first page shorter than 100: later pages are not asked
  for.\<close>

lemma ListRepositories_short_first_page:
  assumes "projects_page c 1 = Decoded p" and "int (length p) < perPage"
  shows "ListRepositories c tr = Some (Inr p, tr @ [Call_projects_page 1])"
  unfolding ListRepositories_def
  using assms by (subst ListRepositories_loop.simps) simp

section \<open>Shared lemmas for the claims\<close>

lemma filterAndSortConflictingMRs_test_mrs:
  "filterAndSortConflictingMRs insertion_sort test_mrs =
     [example_mr 5 ''release'' ''master'' True 3600, example_mr 1 ''release'' ''master'' True 0]"
  by (simp add: filterAndSortConflictingMRs_def test_mrs_def example_mr_def insertion_sort_def
      created_after_def)

lemma release_master_conflict_filter:
  "filter (\<lambda>mr. SourceBranch mr = ''release'' \<and> TargetBranch mr = ''master'' \<and> HasConflicts mr) mrs =
   filter release_master_conflict mrs"
  by (induction mrs) (simp_all add: release_master_conflict_def)

lemma real_conflict_filter:
  "filter (\<lambda>mr. SourceBranch mr = ''release'' \<and> TargetBranch mr = ''master'' \<and> HasConflicts mr \<and>
              (case GetMergeRequestChanges c projectID (MergeRequest.ID mr) of
                 Inl err \<Rightarrow> True | Inr n \<Rightarrow> 0 < n)) mrs =
   filter (real_conflict c projectID) mrs"
  by (induction mrs)
     (simp_all add: real_conflict_def release_master_conflict_def lookup_failed_or_positive_def)

lemma real_conflict_set:
  "set (filter (real_conflict c projectID) mrs) =
     {mr \<in> set mrs. SourceBranch mr = ''release'' \<and> TargetBranch mr = ''master'' \<and>
        HasConflicts mr \<and>
        (case GetMergeRequestChanges c projectID (MergeRequest.ID mr) of
           Inl err \<Rightarrow> True | Inr n \<Rightarrow> 0 < n)}"
  by (auto simp: real_conflict_def release_master_conflict_def lookup_failed_or_positive_def)

lemmas scenario_defs = scenario_Client_def scenario_repos_def example_repo_def example_mr_def

lemma scenario_survivors:
  "fst (filterAndSortRealConflictingMRs insertion_sort scenario_Client 2
          [example_mr 1 ''release'' ''master'' True 100,
           example_mr 2 ''release'' ''master'' True 200] tr) =
     [example_mr 2 ''release'' ''master'' True 200, example_mr 1 ''release'' ''master'' True 100]"
  by (simp add: filterAndSortRealConflictingMRs_def hasActualChanges_def
      call_GetMergeRequestChanges_def insertion_sort_def created_after_def scenario_defs)

lemma processRepository_consistent:
  "error_status_consistent (fst (processRepository rs repo tr))"
  by (simp add: processRepository_eq error_status_consistent_def split: sum.splits)

lemma AnalyzeMRs_round_consistent:
  assumes "error_status_consistent repo"
  shows "error_status_consistent (fst (AnalyzeMRs_round sort_Slice c repo))"
proof (cases "Repository.Status repo = StatusError")
  case True
  then show ?thesis using assms by (simp add: AnalyzeMRs_round_Error)
next
  case False
  then show ?thesis
    using assms
    by (cases "ListMergeRequests c (Repository.ID repo) ''release'' ''master''")
       (simp_all add: AnalyzeMRs_round_fetch_failed AnalyzeMRs_round_fetched
          error_status_consistent_def)
qed

lemma scenario_scan:
  "ScanRepositories (scenario_scanner []) [] =
     Some (Inr [example_repo 1 10 StatusNoMRs None, example_repo 2 20 StatusConflicts None,
                example_repo 3 10 StatusError (Some (Failure ''API error 500: '')),
                example_repo 4 20 StatusConflicts None],
           [Call_projects_page 1,
            Call_ListMergeRequests 1 ''release'' ''master'',
            Call_ListMergeRequests 2 ''release'' ''master'',
            Call_ListMergeRequests 3 ''release'' ''master'',
            Call_ListMergeRequests 4 ''release'' ''master''])"
  by (simp add: ScanRepositories_def ListRepositories_def ListRepositories_loop.simps perPage_def
      filterRepositories_def processRepository_def call_ListMergeRequests_def
      scenario_scanner_def scenario_defs)

lemma scenario_analysis:
  "AnalyzeMRs insertion_sort (Some scenario_Client) scenario_repos [] =
     (Inr [example_repo 1 10 StatusNoMRs None, example_repo 2 20 StatusConflicts None,
           example_repo 3 10 StatusError
             (Some (Errorf ''failed to fetch merge requests for repository %s: %w''
                      [S ''test-repo''] (Some (Failure ''API error 500: '')))),
           example_repo 4 20 StatusAccessible None],
      [Call_ListMergeRequests 1 ''release'' ''master'',
       Call_ListMergeRequests 2 ''release'' ''master'',
       Call_GetMergeRequestChanges 2 1, Call_GetMergeRequestChanges 2 2,
       Call_ListMergeRequests 3 ''release'' ''master'',
       Call_ListMergeRequests 4 ''release'' ''master'',
       Call_GetMergeRequestChanges 4 7])"
  by (simp add: AnalyzeMRs_def analyzeRepository_def call_ListMergeRequests_def
      filterAndSortRealConflictingMRs_def hasActualChanges_def call_GetMergeRequestChanges_def
      insertion_sort_def created_after_def scenario_defs)

lemma conflicts_of_eq:
  "conflicts_of sort_Slice c projectID =
     (case ListMergeRequests c projectID ''release'' ''master'' of
        Inl err \<Rightarrow> []
      | Inr mrs \<Rightarrow> fst (filterAndSortRealConflictingMRs sort_Slice c projectID mrs tr))"
  by (simp add: conflicts_of_def filterAndSortRealConflictingMRs_eq split: sum.splits)

lemma scenario_conflicting:
  "GetConflictingMRs insertion_sort (Some scenario_Client) conflict_repos [] =
     Returned
       ((Map.empty(2 \<mapsto> [example_mr 2 ''release'' ''master'' True 200,
                           example_mr 1 ''release'' ''master'' True 100]), None),
        [Call_ListMergeRequests 2 ''release'' ''master'',
         Call_GetMergeRequestChanges 2 1, Call_GetMergeRequestChanges 2 2,
         Call_ListMergeRequests 3 ''release'' ''master'',
         Call_ListMergeRequests 4 ''release'' ''master'',
         Call_GetMergeRequestChanges 4 7])"
  by (simp add: GetConflictingMRs_def call_ListMergeRequests_def
      filterAndSortRealConflictingMRs_def hasActualChanges_def call_GetMergeRequestChanges_def
      insertion_sort_def created_after_def conflict_repos_def scenario_defs)

lemma processRepository_identity:
  "Repository.ID (fst (processRepository rs repo tr)) = Repository.ID repo \<and>
   Repository.Name (fst (processRepository rs repo tr)) = Repository.Name repo \<and>
   Repository.WebURL (fst (processRepository rs repo tr)) = Repository.WebURL repo \<and>
   Namespace (fst (processRepository rs repo tr)) = Namespace repo"
  by (simp add: processRepository_eq split: sum.splits)

lemma tied_run:
  "Slice created_after tied_mrs =
     Some (map (\<lambda>i. example_mr i ''release'' ''master'' True (if i = 13 then 200 else 100))
             [13, 7, 3, 4, 5, 6, 1, 8, 9, 10, 11, 12, 2])"
  by code_simp

lemma scanned_identity:
  "map identity (map (\<lambda>repo. fst (processRepository rs repo [])) (filterRepositories rs source)) =
   map identity (filter (passes_whitelist rs) source)"
proof -
  have "filterRepositories rs source = filter (passes_whitelist rs) source"
    by (induction source) (simp_all add: filterRepositories_eq passes_whitelist_def)
  then show ?thesis
    by (simp add: identity_def processRepository_identity comp_def)
qed

lemma mock_page_Suc:
  "mock_page repos (int k + 1) perPage = take 100 (drop (k * 100) repos)"
proof -
  have n1: "nat (int k * 100) = k * 100"
    by (simp add: nat_mult_distrib)
  have n2: "nat (int k * 100 + 100) = k * 100 + 100"
    by (simp add: nat_add_distrib nat_mult_distrib)
  show ?thesis
  proof (cases "k * 100 + 100 > length repos")
    case True
    then have "int (length repos) < int k * 100 + 100" by linarith
    then show ?thesis
      using True by (simp add: mock_page_def Let_def perPage_def n1)
  next
    case False
    then have "\<not> int (length repos) < int k * 100 + 100" by linarith
    moreover have "int k * 100 < int (length repos)" using False by linarith
    ultimately show ?thesis
      by (simp add: mock_page_def Let_def perPage_def n1 n2 drop_take)
  qed
qed

lemma mock_page_eq:
  assumes "1 \<le> page"
  shows "mock_page repos page perPage = take 100 (drop (nat (page - 1) * 100) repos)"
proof -
  have "page = int (nat (page - 1)) + 1"
    using assms by simp
  then show ?thesis
    using mock_page_Suc [of repos "nat (page - 1)"] by simp
qed

text \<open>Against a remote side that cuts its repositories into pages of the size asked for,
  the listing returns every repository, whatever their number, and the scan every
  repository that passes the whitelist.\<close>

lemma ListRepositories_loop_mock:
  assumes "\<forall>n\<ge>1. projects_page c n = Decoded (mock_page repos n perPage)"
    and "1 \<le> page"
  shows "\<exists>tr'. ListRepositories_loop c page acc tr =
           Some (Inr (acc @ drop (nat (page - 1) * 100) repos), tr')"
  using assms(2)
proof (induction "length repos - nat (page - 1) * 100" arbitrary: page acc tr rule: less_induct)
  case less
  let ?k = "nat (page - 1)"
  let ?p = "take 100 (drop (?k * 100) repos)"
  have p: "projects_page c page = Decoded ?p"
    using assms(1) less.prems by (simp add: mock_page_eq)
  show ?case
  proof (cases "int (length ?p) < perPage")
    case True
    then have "?p = drop (?k * 100) repos"
      by (simp add: perPage_def)
    then show ?thesis
      using True p by (subst ListRepositories_loop.simps) simp
  next
    case False
    then have len: "?k * 100 + 100 \<le> length repos"
      by (simp add: perPage_def)
    have k: "nat (page + 1 - 1) = Suc ?k"
      using less.prems by simp
    have "length repos - nat (page + 1 - 1) * 100 < length repos - ?k * 100"
      using len unfolding k by simp
    from less.hyps [OF this, of "acc @ ?p" "tr @ [Call_projects_page page]"] less.prems
    obtain tr' where
      "ListRepositories_loop c (page + 1) (acc @ ?p) (tr @ [Call_projects_page page]) =
         Some (Inr ((acc @ ?p) @ drop (Suc ?k * 100) repos), tr')"
      unfolding k by auto
    moreover have "?p @ drop (Suc ?k * 100) repos = drop (?k * 100) repos"
    proof -
      have "drop (Suc ?k * 100) repos = drop 100 (drop (?k * 100) repos)"
        by (simp add: add.commute)
      then show ?thesis by (simp del: drop_drop)
    qed
    ultimately show ?thesis
      using False p by (subst ListRepositories_loop.simps) simp
  qed
qed

lemma ListRepositories_mock:
  assumes "\<forall>n\<ge>1. projects_page c n = Decoded (mock_page repos n perPage)"
  shows "\<exists>tr'. ListRepositories c tr = Some (Inr repos, tr')"
  using ListRepositories_loop_mock [OF assms, of 1 "[]" tr]
  by (simp add: ListRepositories_def)

lemma ScanRepositories_mock:
  assumes "\<forall>n\<ge>1. projects_page (client rs) n = Decoded (mock_page repos n perPage)"
  shows "\<exists>scanned tr'. ScanRepositories rs tr = Some (Inr scanned, tr') \<and>
           map identity scanned = map identity (filter (passes_whitelist rs) repos)"
proof -
  from ListRepositories_mock [OF assms, of tr]
  obtain tr1 where "ListRepositories (client rs) tr = Some (Inr repos, tr1)" by blast
  from ScanRepositories_listed [OF this] show ?thesis
    using scanned_identity by blast
qed

lemma paged_pages_served:
  "\<forall>i<length paged_pages.
      projects_page (client paged_scanner) (1 + int i) = Decoded (paged_pages ! i)"
proof (intro allI impI)
  fix i assume "i < length paged_pages"
  then have "i = 0 \<or> i = 1" by (auto simp: paged_pages_def)
  then show "projects_page (client paged_scanner) (1 + int i) = Decoded (paged_pages ! i)"
    by (auto simp: paged_scanner_def paged_Client_def paged_pages_def)
qed

lemma paged_pages_end:
  "\<forall>i<length paged_pages.
     (int (length (paged_pages ! i)) < perPage) = (Suc i = length paged_pages)"
proof (intro allI impI)
  fix i assume "i < length paged_pages"
  then have "i = 0 \<or> i = 1" by (auto simp: paged_pages_def)
  then show "(int (length (paged_pages ! i)) < perPage) = (Suc i = length paged_pages)"
    by (auto simp: paged_pages_def numbered_repos_def perPage_def)
qed

section \<open>Summary consistency\<close>

lemma summary_consistent_empty: "summary_consistent (empty_Report ts)"
  by (simp add: summary_consistent_def empty_Report_def conflict_entries_def)

lemma summary_consistent_AddRepository:
  assumes "summary_consistent r"
  shows "summary_consistent (AddRepository r repo mrs status msg)"
  using assms
  by (cases "status = StatusConflicts")
     (simp_all add: summary_consistent_def AddRepository_def conflict_entries_def Let_def)

lemma summary_consistent_calls:
  "summary_consistent r \<Longrightarrow> summary_consistent (AddRepository_calls r calls)"
proof (induction calls arbitrary: r)
  case Nil
  then show ?case by (simp add: AddRepository_calls_def)
next
  case (Cons c calls)
  obtain repo mrs status msg where c: "c = (repo, mrs, status, msg)"
    by (cases c) auto
  have "summary_consistent (AddRepository r repo mrs status msg)"
    using Cons.prems by (rule summary_consistent_AddRepository)
  then have "summary_consistent (AddRepository_calls (AddRepository r repo mrs status msg) calls)"
    by (rule Cons.IH)
  then show ?case by (simp add: AddRepository_calls_def c)
qed

text \<open>
  Claim C1. Starting from an empty report, after any sequence of \<^verbatim>\<open>AddRepository\<close> calls
  \<^verbatim>\<open>TotalRepositories\<close> is the number of entries, \<^verbatim>\<open>RepositoriesWithConflicts\<close> is the
  number of entries whose status is \<^verbatim>\<open>StatusConflicts\<close>, and \<^verbatim>\<open>TotalConflictingMRs\<close> is
  the sum of the lengths of the conflicting-MR lists over exactly those entries.
\<close>

theorem AddRepository_summary_consistency:
  "TotalRepositories (AddRepository_calls (empty_Report ts) calls) =
     int (length (Repositories (AddRepository_calls (empty_Report ts) calls))) \<and>
   RepositoriesWithConflicts (AddRepository_calls (empty_Report ts) calls) =
     int (length (filter (\<lambda>e. RepositoryReport.Status e = StatusConflicts)
                    (Repositories (AddRepository_calls (empty_Report ts) calls)))) \<and>
   TotalConflictingMRs (AddRepository_calls (empty_Report ts) calls) =
     (\<Sum>e\<leftarrow>filter (\<lambda>e. RepositoryReport.Status e = StatusConflicts)
                (Repositories (AddRepository_calls (empty_Report ts) calls)).
        int (length (ConflictingMRs e)))"
  using summary_consistent_calls [OF summary_consistent_empty, of ts calls]
  by (simp add: summary_consistent_def conflict_entries_def)

section \<open>Sort order\<close>

text \<open>
  Claim C2, as amended. With a sort that meets the contract of \<^verbatim>\<open>sort.Slice\<close>, the output of
  both filter-and-sort functions has non-increasing creation timestamps and is a
  rearrangement of the elements that pass the filter. The order among elements with
  equal timestamps is left to \<^verbatim>\<open>sort.Slice\<close>.
\<close>

theorem filterAndSort_newest_first:
  assumes "sort_Slice_contract sort_Slice"
  shows "sorted_wrt (\<lambda>a b. CreatedAt b \<le> CreatedAt a)
           (filterAndSortConflictingMRs sort_Slice mrs) \<and>
         mset (filterAndSortConflictingMRs sort_Slice mrs) =
           mset (filter (\<lambda>mr. SourceBranch mr = ''release'' \<and> TargetBranch mr = ''master'' \<and>
                              HasConflicts mr) mrs) \<and>
         sorted_wrt (\<lambda>a b. CreatedAt b \<le> CreatedAt a)
           (fst (filterAndSortRealConflictingMRs sort_Slice c projectID mrs tr)) \<and>
         mset (fst (filterAndSortRealConflictingMRs sort_Slice c projectID mrs tr)) =
           mset (filter (\<lambda>mr. SourceBranch mr = ''release'' \<and> TargetBranch mr = ''master'' \<and>
                              HasConflicts mr \<and>
                              (case GetMergeRequestChanges c projectID (MergeRequest.ID mr) of
                                 Inl err \<Rightarrow> True | Inr n \<Rightarrow> 0 < n)) mrs)"
proof -
  have p: "sort_permutes sort_Slice" and ord: "sort_orders sort_Slice"
    using assms by (simp_all add: sort_Slice_contract_def)
  have perm: "mset (sort_Slice created_after xs) = mset xs" for xs
    using p by (simp add: sort_permutes_def)
  show ?thesis
    unfolding release_master_conflict_filter real_conflict_filter
    by (simp add: filterAndSortConflictingMRs_eq filterAndSortRealConflictingMRs_eq
        sorted_newest_first [OF ord] perm)
qed

theorem filterAndSort_newest_first_witness:
  "sort_Slice_contract (insertion_sort :: MergeRequest slice_sort) \<and>
   filterAndSortConflictingMRs insertion_sort test_mrs =
     [example_mr 5 ''release'' ''master'' True 3600, example_mr 1 ''release'' ''master'' True 0] \<and>
   sorted_wrt (\<lambda>a b. CreatedAt b \<le> CreatedAt a) (filterAndSortConflictingMRs insertion_sort test_mrs) \<and>
   sorted_wrt (\<lambda>a b. CreatedAt b \<le> CreatedAt a)
     (fst (filterAndSortRealConflictingMRs insertion_sort scenario_Client 2 test_mrs []))"
proof -
  have k: "sort_Slice_contract (insertion_sort :: MergeRequest slice_sort)"
    by (rule insertion_sort_contract)
  from filterAndSort_newest_first [OF k, of test_mrs scenario_Client 2 "[]"] k
    filterAndSortConflictingMRs_test_mrs
  show ?thesis by blast
qed

text \<open>
  The claim as stated, with stability on ties, fails: \<^verbatim>\<open>sort.Slice\<close> is not a stable sort.
  On thirteen merge requests that all pass the filter, of which the first twelve have
  the same creation timestamp, the run of \<^verbatim>\<open>sort.Slice\<close> returns the twelve in the order
  7, 3, 4, 5, 6, 1, 8, 9, 10, 11, 12, 2.
\<close>

theorem filterAndSortConflictingMRs_not_stable:
  "map MergeRequest.ID tied_mrs = [1, 2, 3, 4, 5, 6, 7, 8, 9, 10, 11, 12, 13] \<and>
   map CreatedAt tied_mrs = [100, 100, 100, 100, 100, 100, 100, 100, 100, 100, 100, 100, 200] \<and>
   filterConflictingMRs_loop tied_mrs [] = tied_mrs \<and>
   map_option (map MergeRequest.ID) (Slice created_after tied_mrs) =
     Some [13, 7, 3, 4, 5, 6, 1, 8, 9, 10, 11, 12, 2] \<and>
   map MergeRequest.ID (filterAndSortConflictingMRs sort_Slice_go tied_mrs) =
     [13, 7, 3, 4, 5, 6, 1, 8, 9, 10, 11, 12, 2] \<and>
   map CreatedAt (filterAndSortConflictingMRs sort_Slice_go tied_mrs) =
     [200, 100, 100, 100, 100, 100, 100, 100, 100, 100, 100, 100, 100] \<and>
   \<not> keeps_order_of_ties tied_mrs (filterAndSortConflictingMRs sort_Slice_go tied_mrs)"
proof -
  have f: "filterConflictingMRs_loop tied_mrs [] = tied_mrs"
    by (simp add: filterConflictingMRs_loop_eq release_master_conflict_def tied_mrs_def
        example_mr_def)
  have out: "filterAndSortConflictingMRs sort_Slice_go tied_mrs =
      map (\<lambda>i. example_mr i ''release'' ''master'' True (if i = 13 then 200 else 100))
        [13, 7, 3, 4, 5, 6, 1, 8, 9, 10, 11, 12, 2]"
    by (simp add: filterAndSortConflictingMRs_def f sort_Slice_go_def tied_run)
  have c1: "map MergeRequest.ID tied_mrs = [1, 2, 3, 4, 5, 6, 7, 8, 9, 10, 11, 12, 13]"
    by (simp add: tied_mrs_def example_mr_def)
  have c2: "map CreatedAt tied_mrs =
      [100, 100, 100, 100, 100, 100, 100, 100, 100, 100, 100, 100, 200]"
    by (simp add: tied_mrs_def example_mr_def)
  have c3: "map_option (map MergeRequest.ID) (Slice created_after tied_mrs) =
      Some [13, 7, 3, 4, 5, 6, 1, 8, 9, 10, 11, 12, 2]"
    unfolding tied_run by (simp add: example_mr_def)
  have c4: "map MergeRequest.ID (filterAndSortConflictingMRs sort_Slice_go tied_mrs) =
      [13, 7, 3, 4, 5, 6, 1, 8, 9, 10, 11, 12, 2]"
    unfolding out by (simp add: example_mr_def)
  have c5: "map CreatedAt (filterAndSortConflictingMRs sort_Slice_go tied_mrs) =
      [200, 100, 100, 100, 100, 100, 100, 100, 100, 100, 100, 100, 100]"
    unfolding out by (simp add: example_mr_def)
  have c6: "\<not> keeps_order_of_ties tied_mrs (filterAndSortConflictingMRs sort_Slice_go tied_mrs)"
    by code_simp
  from c1 c2 f c3 c4 c5 c6 show ?thesis by (intro conjI)
qed

section \<open>Branch filter\<close>

text \<open>
  Claim C3. The elements \<^verbatim>\<open>filterAndSortConflictingMRs\<close> returns are exactly the elements
  of its input with source branch \<^verbatim>\<open>release\<close>, target branch \<^verbatim>\<open>master\<close> and the conflict
  flag set: as a set, and with the number of occurrences of each.
\<close>

theorem filterAndSortConflictingMRs_exact_subset:
  assumes "sort_permutes sort_Slice"
  shows "set (filterAndSortConflictingMRs sort_Slice mrs) =
           {mr \<in> set mrs. SourceBranch mr = ''release'' \<and> TargetBranch mr = ''master'' \<and>
                          HasConflicts mr} \<and>
         mset (filterAndSortConflictingMRs sort_Slice mrs) =
           filter_mset (\<lambda>mr. SourceBranch mr = ''release'' \<and> TargetBranch mr = ''master'' \<and>
                              HasConflicts mr) (mset mrs)"
proof -
  have m: "mset (filterAndSortConflictingMRs sort_Slice mrs) =
           mset (filter release_master_conflict mrs)"
    using assms by (simp add: filterAndSortConflictingMRs_eq sort_permutes_def)
  have s: "set (filterAndSortConflictingMRs sort_Slice mrs) =
           set (filter release_master_conflict mrs)"
    using assms by (simp add: filterAndSortConflictingMRs_eq sort_permutes_set)
  show ?thesis
    using m s by (auto simp: release_master_conflict_def)
qed

theorem filterAndSortConflictingMRs_exact_subset_witness:
  "sort_permutes (insertion_sort :: MergeRequest slice_sort) \<and>
   set (filterAndSortConflictingMRs insertion_sort test_mrs) =
     {mr \<in> set test_mrs. SourceBranch mr = ''release'' \<and> TargetBranch mr = ''master'' \<and>
                         HasConflicts mr} \<and>
   set (filterAndSortConflictingMRs insertion_sort test_mrs) =
     {example_mr 1 ''release'' ''master'' True 0, example_mr 5 ''release'' ''master'' True 3600}"
proof -
  have p: "sort_permutes (insertion_sort :: MergeRequest slice_sort)"
    by (rule insertion_sort_permutes)
  have e: "set (filterAndSortConflictingMRs insertion_sort test_mrs) =
     {example_mr 1 ''release'' ''master'' True 0, example_mr 5 ''release'' ''master'' True 3600}"
    by (auto simp: filterAndSortConflictingMRs_test_mrs)
  from filterAndSortConflictingMRs_exact_subset [OF p, of test_mrs] p e show ?thesis
    by blast
qed

section \<open>Classification by the scanner\<close>

text \<open>
  Claim C4. The scanner classifies a repository by the outcome of
  \<^verbatim>\<open>ListMergeRequests(repo.ID, "release", "master")\<close>: on an error the status is
  \<^verbatim>\<open>StatusError\<close> and the error is stored; on success \<^verbatim>\<open>StatusNoMRs\<close> when no merge request
  is returned, \<^verbatim>\<open>StatusConflicts\<close> when one of them has the conflict flag, and
  \<^verbatim>\<open>StatusNoMRs\<close> otherwise. A failure for one repository does not end the scan: once the
  listing of the repositories has succeeded, \<^verbatim>\<open>ScanRepositories\<close> returns every filtered
  repository classified, and no error.
\<close>

theorem processRepository_classification:
  "(case ListMergeRequests (client rs) (Repository.ID repo) ''release'' ''master'' of
      Inl err \<Rightarrow>
        fst (processRepository rs repo tr) =
          repo\<lparr>Repository.Status := StatusError, Error := Some err\<rparr>
    | Inr mrs \<Rightarrow>
        fst (processRepository rs repo tr) =
          repo\<lparr>Repository.Status :=
                 (if mrs = [] then StatusNoMRs
                  else if \<exists>mr\<in>set mrs. HasConflicts mr then StatusConflicts
                  else StatusNoMRs),
               Error := None\<rparr>) \<and>
   (\<forall>listed tr1. ListRepositories (client rs) tr = Some (Inr listed, tr1) \<longrightarrow>
      (\<exists>tr2. ScanRepositories rs tr =
         Some (Inr (map (\<lambda>repo. fst (processRepository rs repo [])) (filterRepositories rs listed)),
               tr2)))"
  by (simp add: processRepository_eq ScanRepositories_listed split: sum.splits)

theorem processRepository_classification_witness:
  "ListMergeRequests (client (scenario_scanner [])) 3 ''release'' ''master'' =
     Inl (Failure ''API error 500: '') \<and>
   fst (processRepository (scenario_scanner []) (example_repo 3 10 StatusAccessible None) []) =
     example_repo 3 10 StatusError (Some (Failure ''API error 500: '')) \<and>
   ScanRepositories (scenario_scanner []) [] =
     Some (Inr [example_repo 1 10 StatusNoMRs None, example_repo 2 20 StatusConflicts None,
                example_repo 3 10 StatusError (Some (Failure ''API error 500: '')),
                example_repo 4 20 StatusConflicts None],
           [Call_projects_page 1,
            Call_ListMergeRequests 1 ''release'' ''master'',
            Call_ListMergeRequests 2 ''release'' ''master'',
            Call_ListMergeRequests 3 ''release'' ''master'',
            Call_ListMergeRequests 4 ''release'' ''master''])"
proof -
  have f: "ListMergeRequests (client (scenario_scanner [])) 3 ''release'' ''master'' =
     Inl (Failure ''API error 500: '')"
    by (simp add: scenario_scanner_def scenario_Client_def)
  have i: "Repository.ID (example_repo 3 10 StatusAccessible None) = 3"
    by (simp add: example_repo_def)
  from processRepository_classification
         [of "scenario_scanner []" "example_repo 3 10 StatusAccessible None" "[]"]
  have "fst (processRepository (scenario_scanner []) (example_repo 3 10 StatusAccessible None) []) =
     (example_repo 3 10 StatusAccessible None)
       \<lparr>Repository.Status := StatusError, Error := Some (Failure ''API error 500: '')\<rparr>"
    unfolding i f by simp
  then have "fst (processRepository (scenario_scanner []) (example_repo 3 10 StatusAccessible None) []) =
     example_repo 3 10 StatusError (Some (Failure ''API error 500: ''))"
    by (simp add: example_repo_def)
  with f scenario_scan show ?thesis by blast
qed

section \<open>Classification by the analyzer\<close>

text \<open>
  Claim C5. For a repository that \<^verbatim>\<open>AnalyzeMRs\<close> does not find in \<^verbatim>\<open>StatusError\<close> and whose
  merge-request fetch succeeds: the survivors of the filter are exactly the fetched
  release-to-master merge requests with the conflict flag whose change-count lookup
  failed or returned a positive count, and the resulting status is \<^verbatim>\<open>StatusConflicts\<close>
  if there is a survivor, \<^verbatim>\<open>StatusAccessible\<close> if there is none but the fetch returned a
  merge request, and \<^verbatim>\<open>StatusNoMRs\<close> if the fetch returned none.
\<close>

theorem AnalyzeMRs_classification:
  assumes "sort_permutes sort_Slice"
    and "i < length repos"
    and "Repository.Status (repos ! i) \<noteq> StatusError"
    and "ListMergeRequests c (Repository.ID (repos ! i)) ''release'' ''master'' = Inr mrs"
  shows "\<exists>analyzed tr'.
           AnalyzeMRs sort_Slice (Some c) repos tr = (Inr analyzed, tr') \<and>
           length analyzed = length repos \<and>
           set (fst (filterAndSortRealConflictingMRs sort_Slice c (Repository.ID (repos ! i)) mrs tr0)) =
             {mr \<in> set mrs. SourceBranch mr = ''release'' \<and> TargetBranch mr = ''master'' \<and>
                HasConflicts mr \<and>
                (case GetMergeRequestChanges c (Repository.ID (repos ! i)) (MergeRequest.ID mr) of
                   Inl err \<Rightarrow> True | Inr n \<Rightarrow> 0 < n)} \<and>
           analyzed ! i =
             (repos ! i)\<lparr>Repository.Status :=
               (if fst (filterAndSortRealConflictingMRs sort_Slice c (Repository.ID (repos ! i)) mrs tr0) \<noteq> []
                then StatusConflicts
                else if mrs \<noteq> [] then StatusAccessible
                else StatusNoMRs)\<rparr>"
proof -
  let ?survivors = "sort_Slice created_after (filter (real_conflict c (Repository.ID (repos ! i))) mrs)"
  have surv: "fst (filterAndSortRealConflictingMRs sort_Slice c (Repository.ID (repos ! i)) mrs tr0) =
      ?survivors"
    by (simp add: filterAndSortRealConflictingMRs_eq)
  have set_surv: "set ?survivors =
      {mr \<in> set mrs. SourceBranch mr = ''release'' \<and> TargetBranch mr = ''master'' \<and>
         HasConflicts mr \<and>
         (case GetMergeRequestChanges c (Repository.ID (repos ! i)) (MergeRequest.ID mr) of
            Inl err \<Rightarrow> True | Inr n \<Rightarrow> 0 < n)}"
    unfolding sort_permutes_set [OF assms(1)] by (rule real_conflict_set)
  have round: "fst (AnalyzeMRs_round sort_Slice c (repos ! i)) =
      (repos ! i)\<lparr>Repository.Status :=
         (if ?survivors \<noteq> [] then StatusConflicts
          else if mrs \<noteq> [] then StatusAccessible else StatusNoMRs)\<rparr>"
    by (simp add: AnalyzeMRs_round_fetched [OF assms(3,4)])
  show ?thesis
    unfolding AnalyzeMRs_Some_eq surv
    using round set_surv assms(2)
    by simp
qed

theorem AnalyzeMRs_classification_witness:
  "sort_permutes (insertion_sort :: MergeRequest slice_sort) \<and>
   1 < length scenario_repos \<and>
   Repository.Status (scenario_repos ! 1) \<noteq> StatusError \<and>
   ListMergeRequests scenario_Client (Repository.ID (scenario_repos ! 1)) ''release'' ''master'' =
     Inr [example_mr 1 ''release'' ''master'' True 100,
          example_mr 2 ''release'' ''master'' True 200] \<and>
   (\<exists>analyzed tr'.
      AnalyzeMRs insertion_sort (Some scenario_Client) scenario_repos [] = (Inr analyzed, tr') \<and>
      length analyzed = length scenario_repos \<and>
      analyzed ! 1 = (scenario_repos ! 1)\<lparr>Repository.Status := StatusConflicts\<rparr>)"
proof -
  let ?mrs = "[example_mr 1 ''release'' ''master'' True 100,
               example_mr 2 ''release'' ''master'' True 200]"
  have p: "sort_permutes (insertion_sort :: MergeRequest slice_sort)"
    by (rule insertion_sort_permutes)
  have i: "1 < length scenario_repos"
    by (simp add: scenario_repos_def)
  have st: "Repository.Status (scenario_repos ! 1) \<noteq> StatusError"
    by (simp add: scenario_defs)
  have id2: "Repository.ID (scenario_repos ! 1) = 2"
    by (simp add: scenario_defs)
  have fetch: "ListMergeRequests scenario_Client (Repository.ID (scenario_repos ! 1))
                 ''release'' ''master'' = Inr ?mrs"
    by (simp add: scenario_defs)
  from AnalyzeMRs_classification [OF p i st fetch, of "[]" "[]"]
  obtain analyzed tr' where
    a: "AnalyzeMRs insertion_sort (Some scenario_Client) scenario_repos [] = (Inr analyzed, tr')"
    and l: "length analyzed = length scenario_repos"
    and s: "analyzed ! 1 = (scenario_repos ! 1)\<lparr>Repository.Status :=
               (if fst (filterAndSortRealConflictingMRs insertion_sort scenario_Client
                          (Repository.ID (scenario_repos ! 1)) ?mrs []) \<noteq> []
                then StatusConflicts
                else if ?mrs \<noteq> [] then StatusAccessible else StatusNoMRs)\<rparr>"
    by blast
  have "analyzed ! 1 = (scenario_repos ! 1)\<lparr>Repository.Status := StatusConflicts\<rparr>"
    using s unfolding id2 scenario_survivors by simp
  with p i st fetch a l show ?thesis by blast
qed

section \<open>Completeness of the scan\<close>

text \<open>
  Claim C6. The source is split into pages, and the split ends exactly at its first page
  shorter than the page size of 100 (which may be empty): every earlier page has at
  least 100 repositories. Page \<open>n\<close> of the remote side is the \<open>n\<close>-th page of the split.
  Then \<^verbatim>\<open>ListRepositories\<close> returns the whole source, and \<^verbatim>\<open>ScanRepositories\<close> returns, in
  the order of the source, exactly its repositories whose namespace identifier is in
  the whitelist (all of them when the whitelist is empty): the same number, with the
  same identifier, name, URL and namespace.
\<close>

theorem ScanRepositories_complete:
  assumes "pages \<noteq> []"
    and "concat pages = source"
    and "\<forall>i<length pages. (int (length (pages ! i)) < perPage) = (Suc i = length pages)"
    and "\<forall>i<length pages. projects_page (client rs) (1 + int i) = Decoded (pages ! i)"
  shows "\<exists>scanned tr1 tr2.
           ListRepositories (client rs) tr = Some (Inr source, tr1) \<and>
           ScanRepositories rs tr = Some (Inr scanned, tr2) \<and>
           length scanned = length (filter (passes_whitelist rs) source) \<and>
           map identity scanned = map identity (filter (passes_whitelist rs) source)"
proof -
  let ?fulls = "butlast pages" and ?lst = "last pages"
  have pages: "pages = ?fulls @ [?lst]"
    using assms(1) by simp
  have full: "\<forall>p\<in>set ?fulls. perPage \<le> int (length p)"
  proof
    fix p assume "p \<in> set ?fulls"
    then obtain i where i: "i < length ?fulls" "?fulls ! i = p"
      by (auto simp: in_set_conv_nth)
    then have "i < length pages" "Suc i \<noteq> length pages" "pages ! i = p"
      by (auto simp: nth_butlast)
    then show "perPage \<le> int (length p)"
      using assms(3) by fastforce
  qed
  have short: "int (length ?lst) < perPage"
  proof -
    have "length pages - 1 < length pages" "Suc (length pages - 1) = length pages"
      using assms(1) by auto
    then have "int (length (pages ! (length pages - 1))) < perPage"
      using assms(3) by blast
    then show ?thesis
      using assms(1) by (simp add: last_conv_nth)
  qed
  have served: "\<forall>i<length (?fulls @ [?lst]).
      projects_page (client rs) (1 + int i) = Decoded ((?fulls @ [?lst]) ! i)"
    using assms(4) pages by simp
  let ?tr1 = "tr @ map (\<lambda>i. Call_projects_page (1 + int i)) [0..<length (?fulls @ [?lst])]"
  have "ListRepositories (client rs) tr = Some (Inr (concat (?fulls @ [?lst])), ?tr1)"
    unfolding ListRepositories_def
    using ListRepositories_loop_pages [OF full short served, of "[]" tr] by simp
  then have listed: "ListRepositories (client rs) tr = Some (Inr source, ?tr1)"
    using pages assms(2) by simp
  let ?scanned = "map (\<lambda>repo. fst (processRepository rs repo [])) (filterRepositories rs source)"
  have scan: "ScanRepositories rs tr =
      Some (Inr ?scanned,
            ?tr1 @ map (\<lambda>repo. Call_ListMergeRequests (Repository.ID repo) ''release'' ''master'')
                     (filterRepositories rs source))"
    by (rule ScanRepositories_listed [OF listed])
  have ident: "map identity ?scanned = map identity (filter (passes_whitelist rs) source)"
    by (rule scanned_identity)
  then have "length (map identity ?scanned) = length (map identity (filter (passes_whitelist rs) source))"
    by (rule arg_cong)
  then have len: "length ?scanned = length (filter (passes_whitelist rs) source)"
    by (simp del: map_map)
  from listed scan len ident show ?thesis by blast
qed

theorem ScanRepositories_complete_witness:
  "paged_pages \<noteq> [] \<and>
   map length paged_pages = [100, 1] \<and>
   projects_page (client paged_scanner) 1 = Decoded (paged_pages ! 0) \<and>
   projects_page (client paged_scanner) 2 = Decoded (paged_pages ! 1) \<and>
   (\<exists>scanned tr1 tr2.
      ListRepositories (client paged_scanner) [] = Some (Inr (concat paged_pages), tr1) \<and>
      ScanRepositories paged_scanner [] = Some (Inr scanned, tr2) \<and>
      length scanned = 51 \<and>
      map identity scanned = map identity (filter (passes_whitelist paged_scanner) (concat paged_pages)))"
proof -
  have ne: "paged_pages \<noteq> []"
    by (simp add: paged_pages_def)
  have lens: "map length paged_pages = [100, 1]"
    by (simp add: paged_pages_def numbered_repos_def)
  have p1: "projects_page (client paged_scanner) 1 = Decoded (paged_pages ! 0)"
    and p2: "projects_page (client paged_scanner) 2 = Decoded (paged_pages ! 1)"
    by (simp_all add: paged_scanner_def paged_Client_def paged_pages_def)
  have n: "length (filter (passes_whitelist paged_scanner) (concat paged_pages)) = 51"
    by code_simp
  from ScanRepositories_complete [OF ne refl paged_pages_end paged_pages_served, of "[]"]
  obtain scanned tr1 tr2 where
    "ListRepositories (client paged_scanner) [] = Some (Inr (concat paged_pages), tr1)"
    and "ScanRepositories paged_scanner [] = Some (Inr scanned, tr2)"
    and "length scanned = 51"
    and "map identity scanned =
         map identity (filter (passes_whitelist paged_scanner) (concat paged_pages))"
    unfolding n by blast
  with ne lens p1 p2 show ?thesis by blast
qed

section \<open>Status and error of a repository\<close>

text \<open>
  Claim C7. A repository has \<^verbatim>\<open>StatusError\<close> if and only if its error is not \<^verbatim>\<open>nil\<close>: after
  every classification by the scanner, for every repository that \<^verbatim>\<open>ScanRepositories\<close>
  returns, and for every repository that \<^verbatim>\<open>AnalyzeMRs\<close> returns from a pass over the output
  of the scanner, which is the pass the program makes. \<^verbatim>\<open>AnalyzeMRs\<close> returns one repository
  for each one it is given, and on any slice each repository that has the property on
  entry has it on return, whatever the other repositories of the slice are.
\<close>

theorem error_status_invariant:
  "error_status_consistent (fst (processRepository rs repo tr)) \<and>
   (\<forall>scanned tr1. ScanRepositories rs tr = Some (Inr scanned, tr1) \<longrightarrow>
      list_all error_status_consistent scanned \<and>
      (\<exists>analyzed tr2. AnalyzeMRs sort_Slice (Some c) scanned tr1 = (Inr analyzed, tr2) \<and>
         length analyzed = length scanned \<and>
         list_all error_status_consistent analyzed)) \<and>
   (\<exists>analyzed tr2. AnalyzeMRs sort_Slice (Some c) repos tr = (Inr analyzed, tr2) \<and>
      length analyzed = length repos \<and>
      (\<forall>i<length repos. error_status_consistent (repos ! i) \<longrightarrow>
         error_status_consistent (analyzed ! i)))"
proof (intro conjI allI impI)
  show "error_status_consistent (fst (processRepository rs repo tr))"
    by (rule processRepository_consistent)
next
  fix scanned tr1
  assume scan: "ScanRepositories rs tr = Some (Inr scanned, tr1)"
  then obtain listed tr0 where "ListRepositories (client rs) tr = Some (Inr listed, tr0)"
    by (auto simp: ScanRepositories_def split: option.splits sum.splits prod.splits)
  then have "scanned = map (\<lambda>repo. fst (processRepository rs repo [])) (filterRepositories rs listed)"
    using scan by (simp add: ScanRepositories_listed)
  then show scanned: "list_all error_status_consistent scanned"
    by (simp add: list_all_iff processRepository_consistent)
  then have "list_all error_status_consistent
               (map (\<lambda>repo. fst (AnalyzeMRs_round sort_Slice c repo)) scanned)"
    by (simp add: list_all_iff AnalyzeMRs_round_consistent)
  then show "\<exists>analyzed tr2. AnalyzeMRs sort_Slice (Some c) scanned tr1 = (Inr analyzed, tr2) \<and>
         length analyzed = length scanned \<and> list_all error_status_consistent analyzed"
    by (simp add: AnalyzeMRs_Some_eq)
next
  show "\<exists>analyzed tr2. AnalyzeMRs sort_Slice (Some c) repos tr = (Inr analyzed, tr2) \<and>
      length analyzed = length repos \<and>
      (\<forall>i<length repos. error_status_consistent (repos ! i) \<longrightarrow>
         error_status_consistent (analyzed ! i))"
    by (simp add: AnalyzeMRs_Some_eq AnalyzeMRs_round_consistent)
qed

theorem error_status_invariant_witness:
  "(\<exists>scanned tr1 analyzed tr2.
      ScanRepositories (scenario_scanner []) [] = Some (Inr scanned, tr1) \<and>
      list_all error_status_consistent scanned \<and>
      AnalyzeMRs insertion_sort (Some scenario_Client) scanned tr1 = (Inr analyzed, tr2) \<and>
      length analyzed = length scanned \<and>
      list_all error_status_consistent analyzed) \<and>
   (\<exists>analyzed tr2.
      AnalyzeMRs insertion_sort (Some scenario_Client)
        [example_repo 1 10 StatusError None, example_repo 3 10 StatusAccessible None] [] =
        (Inr analyzed, tr2) \<and>
      error_status_consistent (analyzed ! 1)) \<and>
   error_status_consistent
     (fst (processRepository (scenario_scanner []) (example_repo 3 10 StatusAccessible None) []))"
proof -
  have scan: "\<exists>scanned tr1. ScanRepositories (scenario_scanner []) [] = Some (Inr scanned, tr1)"
    by (simp add: scenario_scan)
  have i: "1 < length [example_repo 1 10 StatusError None, example_repo 3 10 StatusAccessible None]"
    by simp
  have h: "error_status_consistent
             ([example_repo 1 10 StatusError None, example_repo 3 10 StatusAccessible None] ! 1)"
    by (simp add: error_status_consistent_def example_repo_def)
  from error_status_invariant
         [of "scenario_scanner []" "example_repo 3 10 StatusAccessible None" "[]" insertion_sort
             scenario_Client
             "[example_repo 1 10 StatusError None, example_repo 3 10 StatusAccessible None]"]
       scan i h
  show ?thesis by blast
qed

section \<open>Errors in \<^verbatim>\<open>AnalyzeMRs\<close>\<close>

text \<open>
  Claim C8. With a \<^verbatim>\<open>nil\<close> client \<^verbatim>\<open>AnalyzeMRs\<close> returns the error at once: no request is
  made. With a client it returns no error and one repository per input repository, in
  order; a repository in \<^verbatim>\<open>StatusError\<close> comes out unchanged and no request is made for
  it; a repository whose merge-request fetch fails comes out in \<^verbatim>\<open>StatusError\<close> with the
  new error. The batch continues: each repository comes out as it does when analyzed on
  its own, whatever happened to the others.
\<close>

theorem AnalyzeMRs_error_handling:
  "AnalyzeMRs sort_Slice None repos tr = (Inl (Errorf ''gitlab client cannot be nil'' [] None), tr) \<and>
   (\<exists>analyzed.
      AnalyzeMRs sort_Slice (Some c) repos tr =
        (Inr analyzed,
         tr @ concat (map (\<lambda>repo. if Repository.Status repo = StatusError then []
                                  else analyze_requests c repo) repos)) \<and>
      length analyzed = length repos \<and>
      (\<forall>i<length repos.
         fst (AnalyzeMRs sort_Slice (Some c) [repos ! i] []) = Inr [analyzed ! i] \<and>
         (Repository.Status (repos ! i) = StatusError \<longrightarrow> analyzed ! i = repos ! i) \<and>
         (\<forall>err. Repository.Status (repos ! i) \<noteq> StatusError \<and>
                ListMergeRequests c (Repository.ID (repos ! i)) ''release'' ''master'' = Inl err \<longrightarrow>
                analyzed ! i =
                  (repos ! i)\<lparr>Repository.Status := StatusError,
                              Error := Some (Errorf ''failed to fetch merge requests for repository %s: %w''
                                               [S (Repository.Name (repos ! i))] (Some err))\<rparr>)))"
proof -
  have nil: "AnalyzeMRs sort_Slice None repos tr =
          (Inl (Errorf ''gitlab client cannot be nil'' [] None), tr)"
    by (simp add: AnalyzeMRs_def)
  have requests: "snd (AnalyzeMRs_round sort_Slice c repo) =
      (if Repository.Status repo = StatusError then [] else analyze_requests c repo)" for repo
    by (simp add: AnalyzeMRs_round_def analyzeRepository_eq split: sum.splits)
  let ?analyzed = "map (\<lambda>repo. fst (AnalyzeMRs_round sort_Slice c repo)) repos"
  have run: "AnalyzeMRs sort_Slice (Some c) repos tr =
      (Inr ?analyzed,
       tr @ concat (map (\<lambda>repo. if Repository.Status repo = StatusError then []
                                else analyze_requests c repo) repos))"
    by (simp add: AnalyzeMRs_Some_eq requests)
  have len: "length ?analyzed = length repos"
    by simp
  have each: "\<forall>i<length repos.
         fst (AnalyzeMRs sort_Slice (Some c) [repos ! i] []) = Inr [?analyzed ! i] \<and>
         (Repository.Status (repos ! i) = StatusError \<longrightarrow> ?analyzed ! i = repos ! i) \<and>
         (\<forall>err. Repository.Status (repos ! i) \<noteq> StatusError \<and>
                ListMergeRequests c (Repository.ID (repos ! i)) ''release'' ''master'' = Inl err \<longrightarrow>
                ?analyzed ! i =
                  (repos ! i)\<lparr>Repository.Status := StatusError,
                              Error := Some (Errorf ''failed to fetch merge requests for repository %s: %w''
                                               [S (Repository.Name (repos ! i))] (Some err))\<rparr>)"
    by (simp add: AnalyzeMRs_Some_eq AnalyzeMRs_round_Error AnalyzeMRs_round_fetch_failed)
  from nil run len each show ?thesis
    by blast
qed

theorem AnalyzeMRs_error_handling_witness:
  "AnalyzeMRs insertion_sort None error_repos [] =
     (Inl (Errorf ''gitlab client cannot be nil'' [] None), []) \<and>
   AnalyzeMRs insertion_sort (Some scenario_Client) error_repos [] =
     (Inr [example_repo 1 10 StatusError (Some (Failure ''test error'')),
           example_repo 3 10 StatusError
             (Some (Errorf ''failed to fetch merge requests for repository %s: %w''
                      [S ''test-repo''] (Some (Failure ''API error 500: '')))),
           example_repo 2 20 StatusConflicts None],
      [Call_ListMergeRequests 3 ''release'' ''master'',
       Call_ListMergeRequests 2 ''release'' ''master'',
       Call_GetMergeRequestChanges 2 1, Call_GetMergeRequestChanges 2 2])"
proof -
  have e: "AnalyzeMRs insertion_sort (Some scenario_Client) error_repos [] =
     (Inr [example_repo 1 10 StatusError (Some (Failure ''test error'')),
           example_repo 3 10 StatusError
             (Some (Errorf ''failed to fetch merge requests for repository %s: %w''
                      [S ''test-repo''] (Some (Failure ''API error 500: '')))),
           example_repo 2 20 StatusConflicts None],
      [Call_ListMergeRequests 3 ''release'' ''master'',
       Call_ListMergeRequests 2 ''release'' ''master'',
       Call_GetMergeRequestChanges 2 1, Call_GetMergeRequestChanges 2 2])"
    by (simp add: AnalyzeMRs_def analyzeRepository_def call_ListMergeRequests_def
        filterAndSortRealConflictingMRs_def hasActualChanges_def call_GetMergeRequestChanges_def
        insertion_sort_def created_after_def error_repos_def scenario_defs)
  from AnalyzeMRs_error_handling [of insertion_sort error_repos "[]" scenario_Client] e
  show ?thesis by blast
qed

section \<open>Fetch failures in \<^verbatim>\<open>GetConflictingMRs\<close>\<close>

text \<open>
  Claim C9. With a client, \<^verbatim>\<open>GetConflictingMRs\<close> returns a map and no error. It makes
  requests only for the repositories in \<^verbatim>\<open>StatusConflicts\<close>. For such a repository the
  map holds, under the repository's identifier, the filtered and sorted merge requests
  of the fetch if there are any, and nothing if the fetch failed. Every key of the map
  is the identifier of a repository in \<^verbatim>\<open>StatusConflicts\<close>. (Without a client the first
  request panics, see \<open>GetConflictingMRs_nil_client\<close>; the claim is about fetches that
  fail.)
\<close>

theorem GetConflictingMRs_skips_failures:
  "\<exists>conflictingMRs.
     GetConflictingMRs sort_Slice (Some c) repos tr =
       Returned ((conflictingMRs, None),
                 tr @ concat (map (\<lambda>repo. if Repository.Status repo = StatusConflicts
                                          then analyze_requests c repo else []) repos)) \<and>
     (\<forall>repo\<in>set repos. Repository.Status repo = StatusConflicts \<longrightarrow>
        (case ListMergeRequests c (Repository.ID repo) ''release'' ''master'' of
           Inl err \<Rightarrow> conflictingMRs (Repository.ID repo) = None
         | Inr mrs \<Rightarrow>
             conflictingMRs (Repository.ID repo) =
               (if fst (filterAndSortRealConflictingMRs sort_Slice c (Repository.ID repo) mrs []) = []
                then None
                else Some (fst (filterAndSortRealConflictingMRs sort_Slice c (Repository.ID repo) mrs []))))) \<and>
     (\<forall>k\<in>dom conflictingMRs.
        \<exists>repo\<in>set repos. Repository.ID repo = k \<and> Repository.Status repo = StatusConflicts)"
proof -
  let ?m = "\<lambda>k. if k \<in> conflict_keys sort_Slice c repos
                 then Some (conflicts_of sort_Slice c k) else None"
  have run: "GetConflictingMRs sort_Slice (Some c) repos tr =
       Returned ((?m, None),
                 tr @ concat (map (\<lambda>repo. if Repository.Status repo = StatusConflicts
                                          then analyze_requests c repo else []) repos))"
    unfolding GetConflictingMRs_Some_eq GetConflictingMRs_requests_def by (rule refl)
  have entry: "?m (Repository.ID repo) =
      (if conflicts_of sort_Slice c (Repository.ID repo) = [] then None
       else Some (conflicts_of sort_Slice c (Repository.ID repo)))"
    if "repo \<in> set repos" "Repository.Status repo = StatusConflicts" for repo
    using that by (auto simp: conflict_keys_def)
  have entries: "\<forall>repo\<in>set repos. Repository.Status repo = StatusConflicts \<longrightarrow>
        (case ListMergeRequests c (Repository.ID repo) ''release'' ''master'' of
           Inl err \<Rightarrow> ?m (Repository.ID repo) = None
         | Inr mrs \<Rightarrow>
             ?m (Repository.ID repo) =
               (if fst (filterAndSortRealConflictingMRs sort_Slice c (Repository.ID repo) mrs []) = []
                then None
                else Some (fst (filterAndSortRealConflictingMRs sort_Slice c (Repository.ID repo) mrs []))))"
  proof (intro ballI impI)
    fix repo assume r: "repo \<in> set repos" "Repository.Status repo = StatusConflicts"
    show "case ListMergeRequests c (Repository.ID repo) ''release'' ''master'' of
           Inl err \<Rightarrow> ?m (Repository.ID repo) = None
         | Inr mrs \<Rightarrow>
             ?m (Repository.ID repo) =
               (if fst (filterAndSortRealConflictingMRs sort_Slice c (Repository.ID repo) mrs []) = []
                then None
                else Some (fst (filterAndSortRealConflictingMRs sort_Slice c (Repository.ID repo) mrs [])))"
      unfolding entry [OF r]
      by (simp add: conflicts_of_eq [where tr = "[]"] split: sum.splits)
  qed
  have keys: "\<forall>k\<in>dom ?m.
        \<exists>repo\<in>set repos. Repository.ID repo = k \<and> Repository.Status repo = StatusConflicts"
    by (auto simp: conflict_keys_def dom_def split: if_splits)
  show ?thesis
    using run entries keys by (intro exI [of _ ?m]) (intro conjI)
qed

theorem GetConflictingMRs_skips_failures_witness:
  "GetConflictingMRs insertion_sort (Some scenario_Client) conflict_repos [] =
     Returned
       ((Map.empty(2 \<mapsto> [example_mr 2 ''release'' ''master'' True 200,
                           example_mr 1 ''release'' ''master'' True 100]), None),
        [Call_ListMergeRequests 2 ''release'' ''master'',
         Call_GetMergeRequestChanges 2 1, Call_GetMergeRequestChanges 2 2,
         Call_ListMergeRequests 3 ''release'' ''master'',
         Call_ListMergeRequests 4 ''release'' ''master'',
         Call_GetMergeRequestChanges 4 7]) \<and>
   ListMergeRequests scenario_Client 3 ''release'' ''master'' = Inl (Failure ''API error 500: '') \<and>
   (\<exists>conflictingMRs tr'.
      GetConflictingMRs insertion_sort (Some scenario_Client) conflict_repos [] =
        Returned ((conflictingMRs, None), tr') \<and>
      conflictingMRs 3 = None)"
proof -
  have f: "ListMergeRequests scenario_Client 3 ''release'' ''master'' = Inl (Failure ''API error 500: '')"
    by (simp add: scenario_Client_def)
  from GetConflictingMRs_skips_failures [of insertion_sort scenario_Client conflict_repos "[]"]
  obtain m where
    run: "GetConflictingMRs insertion_sort (Some scenario_Client) conflict_repos [] =
       Returned ((m, None),
                 [] @ concat (map (\<lambda>repo. if Repository.Status repo = StatusConflicts
                                          then analyze_requests scenario_Client repo else [])
                                conflict_repos))"
    and entries: "\<forall>repo\<in>set conflict_repos. Repository.Status repo = StatusConflicts \<longrightarrow>
        (case ListMergeRequests scenario_Client (Repository.ID repo) ''release'' ''master'' of
           Inl err \<Rightarrow> m (Repository.ID repo) = None
         | Inr mrs \<Rightarrow>
             m (Repository.ID repo) =
               (if fst (filterAndSortRealConflictingMRs insertion_sort scenario_Client (Repository.ID repo) mrs []) = []
                then None
                else Some (fst (filterAndSortRealConflictingMRs insertion_sort scenario_Client (Repository.ID repo) mrs []))))"
    by blast
  have "example_repo 3 10 StatusConflicts None \<in> set conflict_repos"
    by (simp add: conflict_repos_def)
  from entries [rule_format, OF this] have "m 3 = None"
    by (simp add: example_repo_def f)
  with run scenario_conflicting f show ?thesis by blast
qed

section \<open>Keys of the map of conflicting merge requests\<close>

text \<open>
  Claim C10. The map \<^verbatim>\<open>GetConflictingMRs\<close> returns has a key exactly for the identifiers
  of the repositories in \<^verbatim>\<open>StatusConflicts\<close> whose merge-request fetch succeeded with at
  least one merge request passing the filter; no key is mapped to an empty list.
\<close>

theorem GetConflictingMRs_keys:
  assumes "sort_permutes sort_Slice"
  shows "\<exists>conflictingMRs tr'.
     GetConflictingMRs sort_Slice (Some c) repos tr = Returned ((conflictingMRs, None), tr') \<and>
     (\<forall>k. k \<in> dom conflictingMRs \<longleftrightarrow>
        (\<exists>repo\<in>set repos. Repository.ID repo = k \<and> Repository.Status repo = StatusConflicts \<and>
           (\<exists>mrs. ListMergeRequests c k ''release'' ''master'' = Inr mrs \<and>
              (\<exists>mr\<in>set mrs. SourceBranch mr = ''release'' \<and> TargetBranch mr = ''master'' \<and>
                 HasConflicts mr \<and>
                 (case GetMergeRequestChanges c k (MergeRequest.ID mr) of
                    Inl err \<Rightarrow> True | Inr n \<Rightarrow> 0 < n))))) \<and>
     (\<forall>k v. conflictingMRs k = Some v \<longrightarrow> v \<noteq> [])"
proof -
  let ?m = "\<lambda>k. if k \<in> conflict_keys sort_Slice c repos
                 then Some (conflicts_of sort_Slice c k) else None"
  have nonempty: "conflicts_of sort_Slice c k \<noteq> [] \<longleftrightarrow>
      (\<exists>mrs. ListMergeRequests c k ''release'' ''master'' = Inr mrs \<and>
         (\<exists>mr\<in>set mrs. SourceBranch mr = ''release'' \<and> TargetBranch mr = ''master'' \<and>
            HasConflicts mr \<and>
            (case GetMergeRequestChanges c k (MergeRequest.ID mr) of
               Inl err \<Rightarrow> True | Inr n \<Rightarrow> 0 < n)))" for k
  proof (cases "ListMergeRequests c k ''release'' ''master''")
    case (Inl err)
    then show ?thesis by (simp add: conflicts_of_def)
  next
    case (Inr mrs)
    have "conflicts_of sort_Slice c k \<noteq> [] \<longleftrightarrow> filter (real_conflict c k) mrs \<noteq> []"
      using Inr by (simp add: conflicts_of_def sort_permutes_Nil_iff [OF assms])
    also have "\<dots> \<longleftrightarrow> (\<exists>mr\<in>set mrs. real_conflict c k mr)"
      by (simp add: filter_empty_conv)
    finally show ?thesis
      using Inr
      by (simp add: real_conflict_def release_master_conflict_def lookup_failed_or_positive_def)
  qed
  have dom: "k \<in> dom ?m \<longleftrightarrow>
      (\<exists>repo\<in>set repos. Repository.ID repo = k \<and> Repository.Status repo = StatusConflicts \<and>
         conflicts_of sort_Slice c k \<noteq> [])" for k
    by (auto simp: conflict_keys_def dom_def)
  have vals: "\<forall>k v. ?m k = Some v \<longrightarrow> v \<noteq> []"
    by (auto simp: conflict_keys_def split: if_splits)
  have "GetConflictingMRs sort_Slice (Some c) repos tr =
          Returned ((?m, None), tr @ concat (map (GetConflictingMRs_requests c) repos))"
    by (rule GetConflictingMRs_Some_eq)
  moreover have "\<forall>k. k \<in> dom ?m \<longleftrightarrow>
        (\<exists>repo\<in>set repos. Repository.ID repo = k \<and> Repository.Status repo = StatusConflicts \<and>
           (\<exists>mrs. ListMergeRequests c k ''release'' ''master'' = Inr mrs \<and>
              (\<exists>mr\<in>set mrs. SourceBranch mr = ''release'' \<and> TargetBranch mr = ''master'' \<and>
                 HasConflicts mr \<and>
                 (case GetMergeRequestChanges c k (MergeRequest.ID mr) of
                    Inl err \<Rightarrow> True | Inr n \<Rightarrow> 0 < n))))"
    unfolding dom nonempty by (rule allI) (rule refl)
  ultimately show ?thesis
    using vals by blast
qed

theorem GetConflictingMRs_keys_witness:
  "sort_permutes (insertion_sort :: MergeRequest slice_sort) \<and>
   (\<exists>conflictingMRs tr'.
      GetConflictingMRs insertion_sort (Some scenario_Client) conflict_repos [] =
        Returned ((conflictingMRs, None), tr') \<and>
      dom conflictingMRs = {2} \<and>
      conflictingMRs 2 = Some [example_mr 2 ''release'' ''master'' True 200,
                               example_mr 1 ''release'' ''master'' True 100])"
proof -
  have p: "sort_permutes (insertion_sort :: MergeRequest slice_sort)"
    by (rule insertion_sort_permutes)
  from GetConflictingMRs_keys [OF p, of scenario_Client conflict_repos "[]"]
  obtain m tr' where
    run: "GetConflictingMRs insertion_sort (Some scenario_Client) conflict_repos [] =
            Returned ((m, None), tr')"
    by blast
  have m: "m = Map.empty(2 \<mapsto> [example_mr 2 ''release'' ''master'' True 200,
                                  example_mr 1 ''release'' ''master'' True 100])"
    using run by (simp add: scenario_conflicting)
  have "dom m = {2}" and "m 2 = Some [example_mr 2 ''release'' ''master'' True 200,
                                       example_mr 1 ''release'' ''master'' True 100]"
    by (simp_all add: m)
  with p run show ?thesis by blast
qed

end
